theory Spec2Isabelle
  imports Complex_Main "HOL-Library.Word" "HOL-Library.AList"
begin

text \<open>
  The chunked content persistence of the command-line tool: \<open>FileManager\<close> (size
  analysis, splitting, the cache and its eviction), \<open>ErrorHandler\<close> (the retry
  executor with its error classes) and \<open>ChunkManager\<close> (the chunked write, its
  bookkeeping, finalize and cleanup). Methods become functions that take the state of
  their object and return the new one; an exception is the \<open>Inl\<close> of a sum; the
  readings of \<open>Date.now()\<close> and the random suffix of an operation id are arguments.
\<close>

section \<open>JavaScript strings\<close>

text \<open>
  A JavaScript string is a sequence of UTF-16 code units; \<open>content.length\<close> counts
  code units and \<open>slice\<close> cuts between them. \<open>js\<close> turns an ASCII literal into
  such a string.
\<close>

type_synonym jsstring = "16 word list"

definition js :: "string \<Rightarrow> jsstring" where
  "js s = map (\<lambda>c. of_char c) s"

text \<open>
  \<open>new TextEncoder().encode(content).length\<close>: the number of bytes of the UTF-8
  encoding. A code unit below 0x80 takes one byte, below 0x800 two; a high surrogate
  followed by a low surrogate is one supplementary code point of four bytes; any other
  code unit takes three bytes (a lone surrogate is encoded as U+FFFD).
\<close>

definition is_high_surrogate :: "16 word \<Rightarrow> bool" where
  "is_high_surrogate c = (0xD800 \<le> c \<and> c \<le> 0xDBFF)"

definition is_low_surrogate :: "16 word \<Rightarrow> bool" where
  "is_low_surrogate c = (0xDC00 \<le> c \<and> c \<le> 0xDFFF)"

definition unit_bytes :: "16 word \<Rightarrow> nat" where
  "unit_bytes c = (if c < 0x80 then 1 else if c < 0x800 then 2 else 3)"

fun utf8_length :: "jsstring \<Rightarrow> nat" where
  "utf8_length [] = 0"
| "utf8_length [c] = unit_bytes c"
| "utf8_length (c # d # ds) =
     (if is_high_surrogate c \<and> is_low_surrogate d then 4 + utf8_length ds
      else unit_bytes c + utf8_length (d # ds))"

section \<open>FileManager: analyzeContent and splitContent\<close>

text \<open>
  The constructor of \<open>FileManager\<close> sets \<open>CHUNK_SIZE\<close> and
  \<open>WARNING_THRESHOLD\<close>, and nothing assigns them afterwards: they are constants.
\<close>

definition CHUNK_SIZE :: nat where
  "CHUNK_SIZE = 50000"

definition WARNING_THRESHOLD :: rat where
  "WARNING_THRESHOLD = 8 / 10"

text \<open>
  \<open>Math.ceil(a / b)\<close> on two lengths. JavaScript divides in double precision; for
  operands below \<open>2^53\<close> the quotient is never rounded across an integer, so the
  ceiling is the exact one. (With \<open>b = 0\<close> JavaScript yields Infinity or NaN; here
  \<open>CHUNK_SIZE\<close> is 50000, and \<open>splitContent\<close> never uses the value when
  \<open>numChunks = 0\<close>.)
\<close>

definition ceil_div :: "nat \<Rightarrow> nat \<Rightarrow> nat" where
  "ceil_div a b = (a + b - 1) div b"

record Analysis =
  size_a :: nat
  requiresChunking :: bool
  chunks :: nat
  approachingLimit :: bool

definition analyzeContent :: "jsstring \<Rightarrow> Analysis" where
  "analyzeContent content =
     (let size = utf8_length content in
      \<lparr> size_a = size,
        requiresChunking = (size > CHUNK_SIZE),
        chunks = ceil_div size CHUNK_SIZE,
        approachingLimit = (of_nat size > of_nat CHUNK_SIZE * WARNING_THRESHOLD) \<rparr>)"

text \<open>
  \<open>content.slice(start, end)\<close> for non-negative integer arguments: both offsets are
  clamped to the length, and the result is empty when the clamped end is not beyond
  the clamped start.
\<close>

definition slice :: "jsstring \<Rightarrow> nat \<Rightarrow> nat \<Rightarrow> jsstring" where
  "slice s start end =
     (let from = min start (length s); to = min end (length s)
      in take (to - from) (drop from s))"

text \<open>The \<open>for\<close> loop of \<open>splitContent\<close>: \<open>i\<close> runs up to \<open>numChunks\<close>.\<close>

function splitContent_loop :: "jsstring \<Rightarrow> nat \<Rightarrow> nat \<Rightarrow> nat \<Rightarrow> jsstring list \<Rightarrow> jsstring list" where
  "splitContent_loop content numChunks chunkSize i acc =
     (if i < numChunks then
        (let start = i * chunkSize; end = start + chunkSize
         in splitContent_loop content numChunks chunkSize (i + 1)
              (acc @ [slice content start end]))
      else acc)"
  by pat_completeness auto
termination
  by (relation "measure (\<lambda>(content, numChunks, chunkSize, i, acc). numChunks - i)") auto

declare splitContent_loop.simps [simp del]

definition splitContent :: "jsstring \<Rightarrow> nat \<Rightarrow> jsstring list" where
  "splitContent content numChunks =
     (let chunkSize = ceil_div (length content) numChunks
      in splitContent_loop content numChunks chunkSize 0 [])"

section \<open>JavaScript values, numbers as strings, insertion-ordered maps\<close>

datatype jsval = JUndefined | JBool bool | JNum int | JStr jsstring

type_synonym jsobject = "(string \<times> jsval) list"

text \<open>
  A JavaScript \<open>Map\<close> (and an object literal) keeps its keys in insertion order:
  it is an association list, \<open>map_of\<close> is \<open>get\<close>, \<open>AList.update\<close> is \<open>set\<close>
  (an existing key keeps its place, a new key goes last), \<open>AList.delete\<close> is
  \<open>delete\<close> and \<open>map snd\<close> is \<open>values()\<close>.
\<close>

text \<open>Decimal rendering of an integer, as a template literal inserts it.\<close>

definition digit_char :: "nat \<Rightarrow> 16 word" where
  "digit_char d = of_nat (48 + d)"

function show_nat :: "nat \<Rightarrow> jsstring" where
  "show_nat n = (if n < 10 then [digit_char n] else show_nat (n div 10) @ [digit_char (n mod 10)])"
  by pat_completeness auto
termination
  by (relation "measure id") auto

declare show_nat.simps [simp del]

definition show_int :: "int \<Rightarrow> jsstring" where
  "show_int i = (if i < 0 then 0x2D # show_nat (nat (- i)) else show_nat (nat i))"

text \<open>
  The conversion of a string to a number that \<open>>\<close> applies to a string operand
  (StringToNumber): surrounding white space is dropped; the empty string is 0; a
  \<open>0x\<close>, \<open>0o\<close> or \<open>0b\<close> prefix introduces an unsigned integer of that radix;
  otherwise an optional sign is followed by \<open>Infinity\<close> or by a decimal literal with
  optional fraction and exponent; everything else is NaN. The value is kept exact (a
  rational), where JavaScript rounds it to a double.
\<close>

datatype jsnum = NaN | PosInf | NegInf | Fin rat

definition is_white_space :: "16 word \<Rightarrow> bool" where
  "is_white_space c =
     (c \<in> set [0x09, 0x0A, 0x0B, 0x0C, 0x0D, 0x20, 0xA0, 0x1680, 0x2028, 0x2029,
                0x202F, 0x205F, 0x3000, 0xFEFF]
      \<or> (0x2000 \<le> c \<and> c \<le> 0x200A))"

definition trim :: "jsstring \<Rightarrow> jsstring" where
  "trim s = rev (dropWhile is_white_space (rev (dropWhile is_white_space s)))"

definition digit_value :: "nat \<Rightarrow> 16 word \<Rightarrow> nat option" where
  "digit_value radix c =
     (let v = (if 0x30 \<le> c \<and> c \<le> 0x39 then Some (unat c - 48)
               else if 0x61 \<le> c \<and> c \<le> 0x66 then Some (unat c - 87)
               else if 0x41 \<le> c \<and> c \<le> 0x46 then Some (unat c - 55)
               else None)
      in case v of None \<Rightarrow> None | Some d \<Rightarrow> if d < radix then Some d else None)"

fun digits_value :: "nat \<Rightarrow> nat \<Rightarrow> jsstring \<Rightarrow> nat option" where
  "digits_value radix acc [] = Some acc"
| "digits_value radix acc (c # cs) =
     (case digit_value radix c of
        None \<Rightarrow> None
      | Some d \<Rightarrow> digits_value radix (acc * radix + d) cs)"

definition unsigned_integer :: "nat \<Rightarrow> jsstring \<Rightarrow> nat option" where
  "unsigned_integer radix s = (if s = [] then None else digits_value radix 0 s)"

definition split_sign :: "jsstring \<Rightarrow> bool \<times> jsstring" where
  "split_sign s =
     (case s of
        [] \<Rightarrow> (False, [])
      | c # cs \<Rightarrow> if c = 0x2B then (False, cs) else if c = 0x2D then (True, cs) else (False, s))"

definition is_decimal_digit :: "16 word \<Rightarrow> bool" where
  "is_decimal_digit c = (0x30 \<le> c \<and> c \<le> 0x39)"

definition parse_mantissa :: "jsstring \<Rightarrow> (nat \<times> nat) option" where
  "parse_mantissa s =
     (let ip = takeWhile is_decimal_digit s; rest = dropWhile is_decimal_digit s in
      case rest of
        [] \<Rightarrow> (case unsigned_integer 10 ip of None \<Rightarrow> None | Some v \<Rightarrow> Some (v, 0))
      | c # fp \<Rightarrow>
          if c = 0x2E then
            (case unsigned_integer 10 (ip @ fp) of
               None \<Rightarrow> None
             | Some v \<Rightarrow> Some (v, length fp))
          else None)"

definition parse_exponent :: "jsstring \<Rightarrow> int option" where
  "parse_exponent s =
     (let (neg, ds) = split_sign s in
      case unsigned_integer 10 ds of
        None \<Rightarrow> None
      | Some v \<Rightarrow> Some (if neg then - int v else int v))"

definition parse_decimal :: "jsstring \<Rightarrow> rat option" where
  "parse_decimal s =
     (let not_e = (\<lambda>c. c \<noteq> 0x65 \<and> c \<noteq> 0x45);
          m = takeWhile not_e s; r = dropWhile not_e s in
      case parse_mantissa m of
        None \<Rightarrow> None
      | Some (v, f) \<Rightarrow>
          (case r of
             [] \<Rightarrow> Some (of_nat v / 10 ^ f)
           | _ # ex \<Rightarrow>
               (case parse_exponent ex of
                  None \<Rightarrow> None
                | Some x \<Rightarrow>
                    Some (if 0 \<le> x then of_nat v / 10 ^ f * 10 ^ nat x
                          else of_nat v / 10 ^ f / 10 ^ nat (- x)))))"

definition radix_prefix :: "jsstring \<Rightarrow> nat option" where
  "radix_prefix t =
     (case t of
        c # d # _ \<Rightarrow>
          if c \<noteq> 0x30 then None
          else if d = 0x78 \<or> d = 0x58 then Some 16
          else if d = 0x6F \<or> d = 0x4F then Some 8
          else if d = 0x62 \<or> d = 0x42 then Some 2
          else None
      | _ \<Rightarrow> None)"

definition string_to_number :: "jsstring \<Rightarrow> jsnum" where
  "string_to_number s =
     (let t = trim s in
      if t = [] then Fin 0
      else case radix_prefix t of
        Some radix \<Rightarrow>
          (case unsigned_integer radix (drop 2 t) of None \<Rightarrow> NaN | Some v \<Rightarrow> Fin (of_nat v))
      | None \<Rightarrow>
          (let (neg, u) = split_sign t in
           if u = js ''Infinity'' then (if neg then NegInf else PosInf)
           else case parse_decimal u of
             None \<Rightarrow> NaN
           | Some r \<Rightarrow> Fin (if neg then - r else r)))"

definition to_number :: "jsval \<Rightarrow> jsnum" where
  "to_number v =
     (case v of
        JUndefined \<Rightarrow> NaN
      | JBool b \<Rightarrow> Fin (if b then 1 else 0)
      | JNum n \<Rightarrow> Fin (of_int n)
      | JStr s \<Rightarrow> string_to_number s)"

text \<open>\<open>a > v\<close> for an integer \<open>a\<close>: every comparison with NaN is false.\<close>

definition js_gt :: "int \<Rightarrow> jsnum \<Rightarrow> bool" where
  "js_gt a v =
     (case v of NaN \<Rightarrow> False | PosInf \<Rightarrow> False | NegInf \<Rightarrow> True | Fin r \<Rightarrow> of_int a > r)"

section \<open>FileManager: the cache\<close>

record CacheEntry =
  ce_content :: jsstring
  ce_timestamp :: int
  ce_metadata :: jsobject

record WriteResult =
  wr_path :: jsstring
  wr_size :: nat
  wr_cached :: bool
  wr_timestamp :: int

record FileManager =
  fileCache :: "(jsstring \<times> CacheEntry) list"

definition FileManager_new :: FileManager where
  "FileManager_new = \<lparr> fileCache = [] \<rparr>"

text \<open>
  \<open>getChunkPath\<close>: \<open>split('.')\<close> always yields at least one part, \<open>pop()\<close> takes
  the last one, and the rest is joined again.
\<close>

fun split_on :: "16 word \<Rightarrow> jsstring \<Rightarrow> jsstring list" where
  "split_on sep [] = [[]]"
| "split_on sep (c # cs) =
     (if c = sep then [] # split_on sep cs
      else (case split_on sep cs of [] \<Rightarrow> [[c]] | p # ps \<Rightarrow> (c # p) # ps))"

fun join_with :: "16 word \<Rightarrow> jsstring list \<Rightarrow> jsstring" where
  "join_with sep [] = []"
| "join_with sep [p] = p"
| "join_with sep (p # q # ps) = p @ sep # join_with sep (q # ps)"

definition getChunkPath :: "jsstring \<Rightarrow> nat \<Rightarrow> jsstring" where
  "getChunkPath originalPath index =
     (let parts = split_on 0x2E originalPath;
          ext = last parts;
          parts = butlast parts
      in join_with 0x2E parts @ js ''.part'' @ show_nat index @ js ''.'' @ ext)"

text \<open>
  \<open>writeSingleFile\<close> reads the clock twice: \<open>t1\<close> for the cache entry, \<open>t2\<close> for
  the result. \<open>metadata\<close> is \<open>options.metadata\<close>, \<open>None\<close> when absent.
\<close>

definition writeSingleFile ::
  "int \<Rightarrow> int \<Rightarrow> jsstring \<Rightarrow> jsstring \<Rightarrow> jsobject option \<Rightarrow> FileManager \<Rightarrow> WriteResult \<times> FileManager" where
  "writeSingleFile t1 t2 path content metadata fm =
     (\<lparr> wr_path = path, wr_size = length content, wr_cached = True, wr_timestamp = t2 \<rparr>,
      fm\<lparr> fileCache :=
            AList.update path
              \<lparr> ce_content = content, ce_timestamp = t1,
                ce_metadata = (case metadata of None \<Rightarrow> [] | Some m \<Rightarrow> m) \<rparr>
              (fileCache fm) \<rparr>)"

definition isCached :: "jsstring \<Rightarrow> FileManager \<Rightarrow> bool" where
  "isCached path fm = (map_of (fileCache fm) path \<noteq> None)"

definition getCached :: "jsstring \<Rightarrow> FileManager \<Rightarrow> CacheEntry option" where
  "getCached path fm = map_of (fileCache fm) path"

text \<open>
  \<open>clearCache(olderThan = 3600000)\<close>: the default applies when the argument is
  undefined; \<open>now\<close> is the reading of \<open>Date.now()\<close>. The loop visits the entries of
  the map and deletes by key.
\<close>

fun clearCache_loop ::
  "int \<Rightarrow> jsval \<Rightarrow> (jsstring \<times> CacheEntry) list \<Rightarrow> (jsstring \<times> CacheEntry) list \<Rightarrow> (jsstring \<times> CacheEntry) list" where
  "clearCache_loop now olderThan [] cache = cache"
| "clearCache_loop now olderThan ((path, data) # entries) cache =
     clearCache_loop now olderThan entries
       (if js_gt (now - ce_timestamp data) (to_number olderThan)
        then AList.delete path cache else cache)"

definition clearCache :: "jsval \<Rightarrow> int \<Rightarrow> FileManager \<Rightarrow> FileManager" where
  "clearCache olderThan now fm =
     (let olderThan = (case olderThan of JUndefined \<Rightarrow> JNum 3600000 | _ \<Rightarrow> olderThan)
      in fm\<lparr> fileCache := clearCache_loop now olderThan (fileCache fm) (fileCache fm) \<rparr>)"

section \<open>Errors\<close>

text \<open>
  An error object: its class (what \<open>instanceof\<close> tests) and the properties the code
  reads or writes; an absent property is \<open>None\<close>.
\<close>

datatype errclass = Error | TypeError | RetryableError | ValidationError | WorkerError

record jserror =
  er_class :: errclass
  er_message :: jsstring
  er_details :: "jsstring list option"
  er_context :: "jsobject option"
  er_timestamp :: "int option"
  er_status :: "int option"
  er_code :: "jsstring option"

definition new_Error :: "errclass \<Rightarrow> jsstring \<Rightarrow> jserror" where
  "new_Error c message =
     \<lparr> er_class = c, er_message = message, er_details = None, er_context = None,
       er_timestamp = None, er_status = None, er_code = None \<rparr>"

definition new_RetryableError :: "jsstring \<Rightarrow> jserror" where
  "new_RetryableError message = new_Error RetryableError message"

definition new_ValidationError :: "jsstring \<Rightarrow> jsstring list \<Rightarrow> jserror" where
  "new_ValidationError message details =
     (new_Error ValidationError message)\<lparr> er_details := Some details \<rparr>"

definition new_WorkerError :: "jsstring \<Rightarrow> jsobject \<Rightarrow> jserror" where
  "new_WorkerError message context =
     (new_Error WorkerError message)\<lparr> er_context := Some context \<rparr>"

section \<open>ErrorHandler: the retry executor\<close>

record ErrorHandler =
  maxRetries :: int
  baseDelay :: int
  maxDelay :: int

record ErrorHandlerOptions =
  opt_maxRetries :: "int option"
  opt_baseDelay :: "int option"
  opt_maxDelay :: "int option"

text \<open>\<open>options.x || d\<close>: the default replaces an absent option and the falsy 0.\<close>

definition or_default :: "int option \<Rightarrow> int \<Rightarrow> int" where
  "or_default v d = (case v of None \<Rightarrow> d | Some n \<Rightarrow> if n = 0 then d else n)"

definition ErrorHandler_new :: "ErrorHandlerOptions \<Rightarrow> ErrorHandler" where
  "ErrorHandler_new options =
     \<lparr> maxRetries = or_default (opt_maxRetries options) 3,
       baseDelay = or_default (opt_baseDelay options) 1000,
       maxDelay = or_default (opt_maxDelay options) 10000 \<rparr>"

definition isRetryable :: "jserror \<Rightarrow> bool" where
  "isRetryable error =
     (if er_class error = RetryableError then True
      else if er_class error = ValidationError then False
      else if (case er_status error of None \<Rightarrow> False | Some st \<Rightarrow> st \<ge> 500) then True
      else if er_code error = Some (js ''ECONNRESET'') then True
      else if er_code error = Some (js ''ETIMEDOUT'') then True
      else False)"

definition enhanceError :: "jserror \<Rightarrow> jsobject \<Rightarrow> int \<Rightarrow> jserror" where
  "enhanceError error context now =
     (let enhanced = (if er_class error = WorkerError then error
                      else new_WorkerError (er_message error) [])
      in enhanced\<lparr> er_context := Some context, er_timestamp := Some now \<rparr>)"

text \<open>
  The operation is a closure with effects of its own: \<open>operation k\<close> is the outcome of
  its invocation number \<open>k\<close> (counted from 0). A run of \<open>withRetry\<close> is recorded by
  how it completes, how often it invoked the operation, and the waits it slept, in
  order. \<open>now\<close> is the reading of \<open>Date.now()\<close> in \<open>enhanceError\<close>. When the loop
  ends without an attempt the function returns undefined.
\<close>

text \<open>\<open>delay = Math.min(delay * 2, this.maxDelay)\<close>.\<close>

definition next_delay :: "ErrorHandler \<Rightarrow> int \<Rightarrow> int" where
  "next_delay eh delay = min (delay * 2) (maxDelay eh)"

datatype 'a outcome = Resolved 'a | Rejected jserror

datatype 'a completion = Returned 'a | ReturnedUndefined | Threw jserror

record 'a retry_run =
  rr_result :: "'a completion"
  rr_calls :: nat
  rr_sleeps :: "int list"

function withRetry_loop ::
  "ErrorHandler \<Rightarrow> (nat \<Rightarrow> 'a outcome) \<Rightarrow> jsobject \<Rightarrow> int \<Rightarrow> int \<Rightarrow> int \<Rightarrow> nat \<Rightarrow> int list \<Rightarrow> 'a retry_run" where
  "withRetry_loop eh operation context now attempt delay calls sleeps =
     (if attempt \<le> maxRetries eh then
        (case operation calls of
           Resolved v \<Rightarrow>
             \<lparr> rr_result = Returned v, rr_calls = calls + 1, rr_sleeps = sleeps \<rparr>
         | Rejected error \<Rightarrow>
             if \<not> isRetryable error then
               \<lparr> rr_result = Threw (enhanceError error context now),
                 rr_calls = calls + 1, rr_sleeps = sleeps \<rparr>
             else if attempt = maxRetries eh then
               \<lparr> rr_result = Threw (enhanceError
                   (new_Error Error (js ''Operation failed after '' @ show_int (maxRetries eh)
                      @ js '' attempts: '' @ er_message error))
                   (AList.update ''finalAttempt'' (JBool True) context) now),
                 rr_calls = calls + 1, rr_sleeps = sleeps \<rparr>
             else
               withRetry_loop eh operation context now (attempt + 1)
                 (next_delay eh delay) (calls + 1) (sleeps @ [delay]))
      else \<lparr> rr_result = ReturnedUndefined, rr_calls = calls, rr_sleeps = sleeps \<rparr>)"
  by pat_completeness auto
termination
  by (relation "measure (\<lambda>(eh, operation, context, now, attempt, delay, calls, sleeps).
        nat (maxRetries eh + 1 - attempt))") auto

declare withRetry_loop.simps [simp del]

definition withRetry :: "ErrorHandler \<Rightarrow> (nat \<Rightarrow> 'a outcome) \<Rightarrow> jsobject \<Rightarrow> int \<Rightarrow> 'a retry_run" where
  "withRetry eh operation context now =
     withRetry_loop eh operation context now 1 (baseDelay eh) 0 []"

text \<open>An attempt that fails with an error eligible for a retry.\<close>

definition retryable_rejection :: "'a outcome \<Rightarrow> bool" where
  "retryable_rejection r = (case r of Resolved v \<Rightarrow> False | Rejected e \<Rightarrow> isRetryable e)"

section \<open>ChunkManager\<close>

record Operation =
  op_total :: nat
  op_completed :: nat
  op_chunks :: "(nat \<times> WriteResult) list"

record ChunkManager =
  fileManager :: FileManager
  pendingChunks :: "(jsstring \<times> Operation) list"

definition ChunkManager_new :: ChunkManager where
  "ChunkManager_new = \<lparr> fileManager = FileManager_new, pendingChunks = [] \<rparr>"

text \<open>
  \<open>rnd\<close> is the string \<open>Math.random().toString(36).substr(2, 9)\<close> and \<open>now\<close> the
  reading of \<open>Date.now()\<close>.
\<close>

definition generateOperationId :: "int \<Rightarrow> jsstring \<Rightarrow> jsstring" where
  "generateOperationId now rnd = js ''chunk_'' @ show_int now @ js ''_'' @ rnd"

text \<open>
  \<open>updateChunkProgress\<close> calls \<open>this.handleCompletedOperation\<close>, and the class
  \<open>ChunkManager\<close> has no member of that name: the call raises a TypeError.
\<close>

definition missing_method :: jserror where
  "missing_method = new_Error TypeError (js ''this.handleCompletedOperation is not a function'')"

definition handleCompletedOperation :: "jsstring \<Rightarrow> ChunkManager \<Rightarrow> (jserror + unit) \<times> ChunkManager" where
  "handleCompletedOperation operationId cm = (Inl missing_method, cm)"

definition updateChunkProgress ::
  "jsstring \<Rightarrow> nat \<Rightarrow> WriteResult \<Rightarrow> ChunkManager \<Rightarrow> (jserror + unit) \<times> ChunkManager" where
  "updateChunkProgress operationId index result cm =
     (case map_of (pendingChunks cm) operationId of
        None \<Rightarrow> (Inr (), cm)
      | Some operation \<Rightarrow>
          (let operation = operation\<lparr> op_chunks := AList.update index result (op_chunks operation) \<rparr>;
               operation = operation\<lparr> op_completed := op_completed operation + 1 \<rparr>;
               cm = cm\<lparr> pendingChunks := AList.update operationId operation (pendingChunks cm) \<rparr>
           in if op_completed operation = op_total operation
              then handleCompletedOperation operationId cm
              else (Inr (), cm)))"

definition writeChunk ::
  "int \<Rightarrow> int \<Rightarrow> jsstring \<Rightarrow> jsstring \<Rightarrow> nat \<Rightarrow> jsstring \<Rightarrow> ChunkManager \<Rightarrow> (jserror + WriteResult) \<times> ChunkManager" where
  "writeChunk t1 t2 path content index operationId cm =
     (let chunkPath = getChunkPath path index;
          (result, fm) = writeSingleFile t1 t2 chunkPath content
             (Some [(''operationId'', JStr operationId), (''index'', JNum (int index)),
                    (''isChunk'', JBool True)])
             (fileManager cm);
          cm = cm\<lparr> fileManager := fm \<rparr>
      in case updateChunkProgress operationId index result cm of
           (Inl e, cm) \<Rightarrow> (Inl e, cm)
         | (Inr u, cm) \<Rightarrow> (Inr result, cm))"

text \<open>
  \<open>concatenateChunks\<close> reads \<open>metadata\<close> and \<open>content\<close> of the values of
  \<open>operation.chunks\<close>. These values are the results of \<open>writeSingleFile\<close>, objects
  with the properties \<open>path\<close>, \<open>size\<close>, \<open>cached\<close> and \<open>timestamp\<close> only: both
  reads give undefined.
\<close>

definition result_metadata :: "WriteResult \<Rightarrow> jsobject option" where
  "result_metadata r = None"

definition result_content :: "WriteResult \<Rightarrow> jsstring option" where
  "result_content r = None"

text \<open>
  The comparator \<open>(a, b) => a.metadata.index - b.metadata.index\<close>: a property read
  on undefined raises a TypeError; a difference that is not a number is NaN
  (\<open>None\<close>).
\<close>

definition index_of :: "jsobject \<Rightarrow> int option" where
  "index_of m = (case map_of m ''index'' of Some (JNum n) \<Rightarrow> Some n | _ \<Rightarrow> None)"

definition undefined_metadata :: jserror where
  "undefined_metadata =
     new_Error TypeError (js ''Cannot read properties of undefined (reading 'index')'')"

definition compare_index :: "WriteResult \<Rightarrow> WriteResult \<Rightarrow> jserror + int option" where
  "compare_index a b =
     (case result_metadata a of
        None \<Rightarrow> Inl undefined_metadata
      | Some ma \<Rightarrow>
          (case result_metadata b of
             None \<Rightarrow> Inl undefined_metadata
           | Some mb \<Rightarrow>
               (case (index_of ma, index_of mb) of
                  (Some i, Some j) \<Rightarrow> Inr (Some (i - j))
                | _ \<Rightarrow> Inr None)))"

text \<open>
  \<open>Array.prototype.sort\<close> with a comparator: a stable sort, here by insertion. It
  calls the comparator as soon as there are two elements, and an exception of the
  comparator ends the sort. A result that is NaN counts as 0.
\<close>

fun insert_sorted :: "('a \<Rightarrow> 'a \<Rightarrow> jserror + int option) \<Rightarrow> 'a \<Rightarrow> 'a list \<Rightarrow> jserror + 'a list" where
  "insert_sorted cmp x [] = Inr [x]"
| "insert_sorted cmp x (y # ys) =
     (case cmp x y of
        Inl e \<Rightarrow> Inl e
      | Inr v \<Rightarrow>
          if (case v of None \<Rightarrow> False | Some d \<Rightarrow> d > 0)
          then (case insert_sorted cmp x ys of Inl e \<Rightarrow> Inl e | Inr zs \<Rightarrow> Inr (y # zs))
          else Inr (x # y # ys))"

fun sort_with :: "('a \<Rightarrow> 'a \<Rightarrow> jserror + int option) \<Rightarrow> 'a list \<Rightarrow> jserror + 'a list" where
  "sort_with cmp [] = Inr []"
| "sort_with cmp (x # xs) =
     (case sort_with cmp xs of Inl e \<Rightarrow> Inl e | Inr ys \<Rightarrow> insert_sorted cmp x ys)"

text \<open>\<open>join('')\<close> renders an undefined element as the empty string.\<close>

definition concatenateChunks :: "WriteResult list \<Rightarrow> jserror + jsstring" where
  "concatenateChunks chunkList =
     (case sort_with compare_index chunkList of
        Inl e \<Rightarrow> Inl e
      | Inr ordered \<Rightarrow>
          Inr (concat (map (\<lambda>chunk. case result_content chunk of None \<Rightarrow> [] | Some c \<Rightarrow> c) ordered)))"

text \<open>
  \<open>finalizeChunkedOperation\<close> returns undefined (\<open>None\<close>) for an unknown operation,
  the concatenated content otherwise.
\<close>

definition finalizeChunkedOperation ::
  "int \<Rightarrow> int \<Rightarrow> jsstring \<Rightarrow> jsstring \<Rightarrow> ChunkManager \<Rightarrow> (jserror + jsstring option) \<times> ChunkManager" where
  "finalizeChunkedOperation t1 t2 operationId originalPath cm =
     (case map_of (pendingChunks cm) operationId of
        None \<Rightarrow> (Inr None, cm)
      | Some operation \<Rightarrow>
          (let allChunks = map snd (op_chunks operation) in
           case concatenateChunks allChunks of
             Inl e \<Rightarrow> (Inl e, cm)
           | Inr concatenatedContent \<Rightarrow>
               (let (r, fm) = writeSingleFile t1 t2 originalPath concatenatedContent
                      (Some [(''operationId'', JStr operationId), (''isComplete'', JBool True),
                             (''totalChunks'', JNum (int (op_total operation)))])
                      (fileManager cm)
                in (Inr (Some concatenatedContent),
                    cm\<lparr> fileManager := fm,
                        pendingChunks := AList.delete operationId (pendingChunks cm) \<rparr>))))"

text \<open>
  The loop of \<open>handleChunkedWrite\<close>. \<open>clock k\<close> is the reading number \<open>k\<close> of
  \<open>Date.now()\<close> during the call: reading 0 names the operation, chunk \<open>i\<close> takes the
  readings \<open>2 * i + 1\<close> and \<open>2 * i + 2\<close>, and the final write the two after the
  last chunk's.
\<close>

function handleChunkedWrite_loop ::
  "(nat \<Rightarrow> int) \<Rightarrow> jsstring \<Rightarrow> jsstring list \<Rightarrow> jsstring \<Rightarrow> nat \<Rightarrow> WriteResult list \<Rightarrow> ChunkManager
     \<Rightarrow> (jserror + WriteResult list) \<times> ChunkManager" where
  "handleChunkedWrite_loop clock path chunkList operationId i results cm =
     (if i < length chunkList then
        (case writeChunk (clock (2 * i + 1)) (clock (2 * i + 2)) path (chunkList ! i) i operationId cm of
           (Inl e, cm) \<Rightarrow> (Inl e, cm)
         | (Inr result, cm) \<Rightarrow>
             handleChunkedWrite_loop clock path chunkList operationId (i + 1) (results @ [result]) cm)
      else (Inr results, cm))"
  by pat_completeness auto
termination
  by (relation "measure (\<lambda>(clock, path, chunkList, operationId, i, results, cm). length chunkList - i)") auto

declare handleChunkedWrite_loop.simps [simp del]

definition handleChunkedWrite ::
  "(nat \<Rightarrow> int) \<Rightarrow> jsstring \<Rightarrow> jsstring \<Rightarrow> jsstring \<Rightarrow> Analysis \<Rightarrow> ChunkManager
     \<Rightarrow> (jserror + WriteResult list) \<times> ChunkManager" where
  "handleChunkedWrite clock rnd path content analysis cm =
     (let operationId = generateOperationId (clock 0) rnd;
          chunkList = splitContent content (chunks analysis);
          n = length chunkList;
          cm = cm\<lparr> pendingChunks :=
                 AList.update operationId \<lparr> op_total = n, op_completed = 0, op_chunks = [] \<rparr>
                   (pendingChunks cm) \<rparr>
      in case handleChunkedWrite_loop clock path chunkList operationId 0 [] cm of
           (Inl e, cm) \<Rightarrow> (Inl e, cm)
         | (Inr results, cm) \<Rightarrow>
             (case finalizeChunkedOperation (clock (2 * n + 1)) (clock (2 * n + 2)) operationId path cm of
                (Inl e, cm) \<Rightarrow> (Inl e, cm)
              | (Inr c, cm) \<Rightarrow> (Inr results, cm)))"

datatype write_return = Single WriteResult | Chunked "WriteResult list"

definition writeContentInChunks ::
  "(nat \<Rightarrow> int) \<Rightarrow> jsstring \<Rightarrow> jsstring \<Rightarrow> jsstring \<Rightarrow> ChunkManager \<Rightarrow> (jserror + write_return) \<times> ChunkManager" where
  "writeContentInChunks clock rnd path content cm =
     (let analysis = analyzeContent content in
      if requiresChunking analysis then
        (case handleChunkedWrite clock rnd path content analysis cm of
           (Inl e, cm) \<Rightarrow> (Inl e, cm)
         | (Inr results, cm) \<Rightarrow> (Inr (Chunked results), cm))
      else
        (let (r, fm) = writeSingleFile (clock 0) (clock 1) path content None (fileManager cm)
         in (Inr (Single r), cm\<lparr> fileManager := fm \<rparr>)))"

record OperationStatus =
  st_total :: nat
  st_completed :: nat
  st_isComplete :: bool

definition getOperationStatus :: "jsstring \<Rightarrow> ChunkManager \<Rightarrow> OperationStatus option" where
  "getOperationStatus operationId cm =
     (case map_of (pendingChunks cm) operationId of
        None \<Rightarrow> None
      | Some operation \<Rightarrow>
          Some \<lparr> st_total = op_total operation, st_completed = op_completed operation,
                 st_isComplete = (op_completed operation = op_total operation) \<rparr>)"

text \<open>
  \<open>cleanupOperation\<close> hands each recorded result's \<open>path\<close>, a string, to
  \<open>clearCache\<close>, whose parameter is an age. \<open>clock k\<close> is the reading of
  \<open>Date.now()\<close> in the call number \<open>k\<close>.
\<close>

fun cleanup_chunks :: "(nat \<Rightarrow> int) \<Rightarrow> nat \<Rightarrow> WriteResult list \<Rightarrow> FileManager \<Rightarrow> FileManager" where
  "cleanup_chunks clock k [] fm = fm"
| "cleanup_chunks clock k (chunk # rest) fm =
     cleanup_chunks clock (k + 1) rest (clearCache (JStr (wr_path chunk)) (clock k) fm)"

definition cleanupOperation :: "(nat \<Rightarrow> int) \<Rightarrow> jsstring \<Rightarrow> ChunkManager \<Rightarrow> ChunkManager" where
  "cleanupOperation clock operationId cm =
     (case map_of (pendingChunks cm) operationId of
        None \<Rightarrow> cm
      | Some operation \<Rightarrow>
          cm\<lparr> fileManager := cleanup_chunks clock 0 (map snd (op_chunks operation)) (fileManager cm),
              pendingChunks := AList.delete operationId (pendingChunks cm) \<rparr>)"

section \<open>Example inputs\<close>

definition default_handler :: ErrorHandler where
  "default_handler =
     ErrorHandler_new \<lparr> opt_maxRetries = None, opt_baseDelay = None, opt_maxDelay = None \<rparr>"

definition always_retryable :: "nat \<Rightarrow> unit outcome" where
  "always_retryable k = Rejected (new_RetryableError (js ''boom''))"

definition invalid_input :: "nat \<Rightarrow> unit outcome" where
  "invalid_input k = Rejected (new_ValidationError (js ''bad spec'') [js ''name is required''])"

definition aged_cache :: FileManager where
  "aged_cache = \<lparr> fileCache =
     [(js ''old.txt'', \<lparr> ce_content = js ''a'', ce_timestamp = 0, ce_metadata = [] \<rparr>),
      (js ''edge.txt'', \<lparr> ce_content = js ''b'', ce_timestamp = 1000, ce_metadata = [] \<rparr>),
      (js ''new.txt'', \<lparr> ce_content = js ''c'', ce_timestamp = 5000, ce_metadata = [] \<rparr>)] \<rparr>"

text \<open>
  A write of 120000 bytes to \<open>out.txt\<close> on a new \<open>ChunkManager\<close>, with the
  clock at 1700000000000 and advancing by one per reading: the state after the first
  chunk (\<open>one_chunk_done\<close>), the state in which the write ends
  (\<open>failed_write_state\<close>), and the state after finalizing at \<open>one_chunk_done\<close>
  (\<open>finalized_early\<close>).
\<close>

definition big_content :: jsstring where
  "big_content = replicate 120000 0x61"

definition tick :: "nat \<Rightarrow> int" where
  "tick k = 1700000000000 + int k"

definition failed_write_state :: ChunkManager where
  "failed_write_state =
     \<lparr> fileManager = \<lparr> fileCache =
         [(js ''out.part0.txt'',
           \<lparr> ce_content = replicate 40000 0x61, ce_timestamp = 1700000000001,
             ce_metadata = [(''operationId'', JStr (js ''chunk_1700000000000_k3j9x2m1q'')),
                            (''index'', JNum 0), (''isChunk'', JBool True)] \<rparr>),
          (js ''out.part1.txt'',
           \<lparr> ce_content = replicate 40000 0x61, ce_timestamp = 1700000000003,
             ce_metadata = [(''operationId'', JStr (js ''chunk_1700000000000_k3j9x2m1q'')),
                            (''index'', JNum 1), (''isChunk'', JBool True)] \<rparr>),
          (js ''out.part2.txt'',
           \<lparr> ce_content = replicate 40000 0x61, ce_timestamp = 1700000000005,
             ce_metadata = [(''operationId'', JStr (js ''chunk_1700000000000_k3j9x2m1q'')),
                            (''index'', JNum 2), (''isChunk'', JBool True)] \<rparr>)] \<rparr>,
       pendingChunks =
         [(js ''chunk_1700000000000_k3j9x2m1q'',
           \<lparr> op_total = 3, op_completed = 3,
             op_chunks =
               [(0, \<lparr> wr_path = js ''out.part0.txt'', wr_size = 40000, wr_cached = True,
                      wr_timestamp = 1700000000002 \<rparr>),
                (1, \<lparr> wr_path = js ''out.part1.txt'', wr_size = 40000, wr_cached = True,
                      wr_timestamp = 1700000000004 \<rparr>),
                (2, \<lparr> wr_path = js ''out.part2.txt'', wr_size = 40000, wr_cached = True,
                      wr_timestamp = 1700000000006 \<rparr>)] \<rparr>)] \<rparr>"

definition first_result :: WriteResult where
  "first_result = \<lparr> wr_path = js ''out.part0.txt'', wr_size = 40000, wr_cached = True,
                     wr_timestamp = 1700000000002 \<rparr>"

definition one_chunk_done :: ChunkManager where
  "one_chunk_done =
     \<lparr> fileManager = \<lparr> fileCache =
         [(js ''out.part0.txt'',
           \<lparr> ce_content = replicate 40000 0x61, ce_timestamp = 1700000000001,
             ce_metadata = [(''operationId'', JStr (js ''chunk_1700000000000_k3j9x2m1q'')),
                            (''index'', JNum 0), (''isChunk'', JBool True)] \<rparr>)] \<rparr>,
       pendingChunks =
         [(js ''chunk_1700000000000_k3j9x2m1q'',
           \<lparr> op_total = 3, op_completed = 1, op_chunks = [(0, first_result)] \<rparr>)] \<rparr>"

definition finalized_early :: ChunkManager where
  "finalized_early =
     \<lparr> fileManager = \<lparr> fileCache =
         [(js ''out.part0.txt'',
           \<lparr> ce_content = replicate 40000 0x61, ce_timestamp = 1700000000001,
             ce_metadata = [(''operationId'', JStr (js ''chunk_1700000000000_k3j9x2m1q'')),
                            (''index'', JNum 0), (''isChunk'', JBool True)] \<rparr>),
          (js ''out.txt'',
           \<lparr> ce_content = [], ce_timestamp = 1700000000003,
             ce_metadata = [(''operationId'', JStr (js ''chunk_1700000000000_k3j9x2m1q'')),
                            (''isComplete'', JBool True), (''totalChunks'', JNum 3)] \<rparr>)] \<rparr>,
       pendingChunks = [] \<rparr>"

section \<open>The chunk splitter\<close>

lemma slice_eq: "slice s a b = take (b - a) (drop a s)"
  by (cases "a \<le> length s"; cases "b \<le> length s") (auto simp: slice_def Let_def min_def)

lemma splitContent_loop_eq:
  "i \<le> n \<Longrightarrow> splitContent_loop content n cs i acc =
     acc @ map (\<lambda>k. slice content (k * cs) (k * cs + cs)) [i..<n]"
proof (induction content n cs i acc rule: splitContent_loop.induct)
  case (1 content numChunks chunkSize i acc)
  show ?case
  proof (cases "i < numChunks")
    case True
    then show ?thesis
      using "1.IH"[OF True refl refl]
      by (subst splitContent_loop.simps) (simp add: Let_def upt_conv_Cons)
  next
    case False
    with "1.prems" show ?thesis
      by (subst splitContent_loop.simps) simp
  qed
qed

lemma splitContent_map:
  "splitContent content n =
     map (\<lambda>k. slice content (k * ceil_div (length content) n)
                  (k * ceil_div (length content) n + ceil_div (length content) n)) [0..<n]"
  by (simp add: splitContent_def splitContent_loop_eq Let_def)

lemma concat_slices:
  "concat (map (\<lambda>k. slice content (k * cs) (k * cs + cs)) [0..<n]) = take (n * cs) content"
proof (induction n)
  case 0
  then show ?case by simp
next
  case (Suc n)
  have "take (n * cs) content @ slice content (n * cs) (n * cs + cs) = take (n * cs + cs) content"
    by (simp add: slice_eq take_add)
  with Suc show ?case by (simp add: add.commute)
qed

lemma ceil_div_bounds:
  assumes "0 < b"
  shows "a \<le> ceil_div a b * b"
    and "0 < a \<Longrightarrow> (ceil_div a b - 1) * b < a"
    and "0 < a \<Longrightarrow> 0 < ceil_div a b"
proof -
  let ?c = "(a + b - 1) div b"
  have e: "a + b - 1 = ?c * b + (a + b - 1) mod b" by simp
  have m: "(a + b - 1) mod b < b" using assms by simp
  show "a \<le> ceil_div a b * b" using e m assms unfolding ceil_div_def by linarith
  show pos: "0 < ceil_div a b" if "0 < a"
  proof -
    have "b \<le> a + b - 1" using that by simp
    then have "1 \<le> ?c" using assms by (metis div_greater_zero_iff One_nat_def Suc_leI)
    then show ?thesis by (simp add: ceil_div_def)
  qed
  show "(ceil_div a b - 1) * b < a" if "0 < a"
  proof -
    have "?c * b \<le> a + b - 1" by simp
    moreover have "(?c - 1) * b = ?c * b - b" by (simp add: diff_mult_distrib)
    moreover have "b \<le> ?c * b" using pos[OF that] by (simp add: ceil_div_def)
    ultimately show ?thesis using that assms unfolding ceil_div_def by linarith
  qed
qed

text \<open>
  C3. For every content, empty or not, and every \<open>numChunks \<ge> 1\<close>: the fragments of
  \<open>splitContent\<close>, concatenated in order, are the content; there are \<open>numChunks\<close>
  of them; fragment \<open>i\<close> is the content between the offsets
  \<open>min (i * chunkSize) length\<close> and \<open>min ((i + 1) * chunkSize) length\<close>, which start
  at 0, never decrease and end at the length, so no two fragments overlap; and
  \<open>numChunks = 1\<close> gives the whole content as the single fragment.
\<close>

theorem splitContent_roundtrip:
  assumes "1 \<le> numChunks"
  shows "concat (splitContent content numChunks) = content
    \<and> length (splitContent content numChunks) = numChunks
    \<and> (let chunkSize = ceil_div (length content) numChunks;
            offset = (\<lambda>i. min (i * chunkSize) (length content))
        in offset 0 = 0 \<and> offset numChunks = length content
           \<and> (\<forall>i<numChunks. offset i \<le> offset (i + 1)
                 \<and> splitContent content numChunks ! i
                     = take (offset (i + 1) - offset i) (drop (offset i) content)))
    \<and> (numChunks = 1 \<longrightarrow> splitContent content numChunks = [content])"
proof -
  let ?cs = "ceil_div (length content) numChunks"
  have cover: "length content \<le> numChunks * ?cs"
    using ceil_div_bounds(1)[of numChunks "length content"] assms by (simp add: mult.commute)
  have rt: "concat (splitContent content numChunks) = content"
    using cover by (simp add: splitContent_map concat_slices)
  have len: "length (splitContent content numChunks) = numChunks"
    by (simp add: splitContent_map)
  have frag: "splitContent content numChunks ! i
       = take (min ((i + 1) * ?cs) (length content) - min (i * ?cs) (length content))
           (drop (min (i * ?cs) (length content)) content)" if "i < numChunks" for i
    using that by (simp add: splitContent_map slice_def Let_def add.commute)
  have one: "splitContent content numChunks = [content]" if "numChunks = 1"
    using that by (simp add: splitContent_map slice_def ceil_div_def)
  have mono: "min (i * ?cs) (length content) \<le> min ((i + 1) * ?cs) (length content)" for i
    by (rule min.mono) simp_all
  have last: "min (numChunks * ?cs) (length content) = length content"
    using cover by simp
  show ?thesis
    unfolding Let_def using rt len frag one mono last by simp
qed

theorem splitContent_roundtrip_witness:
  "(1::nat) \<le> 3 \<and> concat (splitContent (js ''hello world'') 3) = js ''hello world''
     \<and> splitContent (js ''hello world'') 3 = [js ''hell'', js ''o wo'', js ''rld'']
     \<and> splitContent [] 3 = [[], [], []]
     \<and> splitContent (js ''hello world'') 1 = [js ''hello world'']"
proof -
  have h: "(1::nat) \<le> 3" by simp
  have a: "concat (splitContent (js ''hello world'') 3) = js ''hello world''"
    using splitContent_roundtrip[OF h, of "js ''hello world''"] by blast
  have b: "splitContent (js ''hello world'') 3 = [js ''hell'', js ''o wo'', js ''rld'']"
    by code_simp
  have c: "splitContent [] 3 = [[], [], []]" by code_simp
  have d: "splitContent (js ''hello world'') 1 = [js ''hello world'']" by code_simp
  show ?thesis using h a b c d by blast
qed

section \<open>The content size analyzer\<close>

lemma ceil_div_real:
  assumes "0 < b"
  shows "int (ceil_div a b) = \<lceil>real a / real b\<rceil>"
proof (cases "a = 0")
  case True
  then show ?thesis using assms by (simp add: ceil_div_def)
next
  case False
  then have a: "0 < a" by simp
  have u: "real a \<le> real (ceil_div a b) * real b"
    using ceil_div_bounds(1)[OF assms, of a] by (metis of_nat_le_iff of_nat_mult)
  have l: "real (ceil_div a b - 1) * real b < real a"
    using ceil_div_bounds(2)[OF assms a] by (metis of_nat_less_iff of_nat_mult)
  have p: "1 \<le> ceil_div a b" using ceil_div_bounds(3)[OF assms a] by simp
  have lo: "real_of_int (int (ceil_div a b)) - 1 < real a / real b"
    using l p assms by (simp add: pos_less_divide_eq of_nat_diff)
  have hi: "real a / real b \<le> real_of_int (int (ceil_div a b))"
    using u assms by (simp add: pos_divide_le_eq)
  show ?thesis using ceiling_unique[OF lo hi] by simp
qed

lemma unit_bytes_pos: "0 < unit_bytes c"
  by (simp add: unit_bytes_def)

lemma utf8_length_pos: "content \<noteq> [] \<Longrightarrow> 0 < utf8_length content"
  by (induction content rule: utf8_length.induct) (simp_all add: unit_bytes_pos)

lemma utf8_length_ascii: "\<forall>c\<in>set cs. c < 0x80 \<Longrightarrow> utf8_length cs = length cs"
proof (induction cs rule: utf8_length.induct)
  case 1 show ?case by simp
next
  case (2 c) then show ?case by (simp add: unit_bytes_def)
next
  case (3 c d ds)
  have "\<not> is_high_surrogate c" using 3(3) by (auto simp: is_high_surrogate_def word_less_nat_alt word_le_nat_alt)
  with 3 show ?case by (simp add: unit_bytes_def)
qed

text \<open>
  C4, as the code has it. \<open>size\<close> is the UTF-8 byte length;
  \<open>requiresChunking\<close> holds iff it exceeds \<open>CHUNK_SIZE\<close>; \<open>chunks\<close> is
  \<open>ceil(size / CHUNK_SIZE)\<close> for every content, which is 1 for a non-empty content of
  at most \<open>CHUNK_SIZE\<close> bytes and 0 for the empty content.
\<close>

theorem analyzeContent_chunks:
  "size_a (analyzeContent content) = utf8_length content
   \<and> requiresChunking (analyzeContent content) = (utf8_length content > CHUNK_SIZE)
   \<and> int (chunks (analyzeContent content)) = \<lceil>real (utf8_length content) / real CHUNK_SIZE\<rceil>
   \<and> (content \<noteq> [] \<and> utf8_length content \<le> CHUNK_SIZE \<longrightarrow> chunks (analyzeContent content) = 1)
   \<and> (content = [] \<longrightarrow> \<not> requiresChunking (analyzeContent content) \<and> chunks (analyzeContent content) = 0)"
proof -
  have cs: "0 < CHUNK_SIZE" by (simp add: CHUNK_SIZE_def)
  have c: "chunks (analyzeContent content) = ceil_div (utf8_length content) CHUNK_SIZE"
    by (simp add: analyzeContent_def Let_def)
  have one: "chunks (analyzeContent content) = 1"
    if ne: "content \<noteq> []" and le: "utf8_length content \<le> CHUNK_SIZE"
  proof -
    have p: "0 < utf8_length content" using ne by (rule utf8_length_pos)
    have "CHUNK_SIZE \<le> utf8_length content + CHUNK_SIZE - 1" using p by simp
    moreover have "utf8_length content + CHUNK_SIZE - 1 < 2 * CHUNK_SIZE" using le cs by simp
    ultimately have "(utf8_length content + CHUNK_SIZE - 1) div CHUNK_SIZE = 1"
      using cs by (metis One_nat_def div_nat_eqI mult.commute mult.right_neutral mult_2 mult_Suc_right)
    then show ?thesis by (simp add: c ceil_div_def)
  qed
  have zero: "chunks (analyzeContent []) = 0 \<and> \<not> requiresChunking (analyzeContent [])"
    by (simp add: analyzeContent_def Let_def ceil_div_def CHUNK_SIZE_def)
  show ?thesis
    using one zero ceil_div_real[OF cs, of "utf8_length content"]
    by (auto simp: c) (simp_all add: analyzeContent_def Let_def)
qed

text \<open>
  The empty content does not require chunking, and its \<open>chunks\<close> is 0, not 1.
\<close>

theorem analyzeContent_chunks_counterexample:
  "\<not> requiresChunking (analyzeContent []) \<and> chunks (analyzeContent []) \<noteq> 1"
  by (simp add: analyzeContent_def Let_def ceil_div_def CHUNK_SIZE_def)

theorem analyzeContent_chunks_witness:
  "js ''hello'' \<noteq> [] \<and> utf8_length (js ''hello'') \<le> CHUNK_SIZE
   \<and> chunks (analyzeContent (js ''hello'')) = 1
   \<and> requiresChunking (analyzeContent (replicate 120000 0x61))
   \<and> int (chunks (analyzeContent (replicate 120000 0x61))) = 3
   \<and> chunks (analyzeContent []) = 0"
proof -
  have a: "js ''hello'' \<noteq> []" by (simp add: js_def)
  have b: "utf8_length (js ''hello'') \<le> CHUNK_SIZE"
    by (simp add: js_def CHUNK_SIZE_def unit_bytes_def is_high_surrogate_def)
  have c: "chunks (analyzeContent (js ''hello'')) = 1"
    using analyzeContent_chunks[of "js ''hello''"] a b by blast
  have l: "utf8_length (replicate 120000 0x61) = 120000"
    by (simp add: utf8_length_ascii)
  have d: "requiresChunking (analyzeContent (replicate 120000 0x61))"
    using analyzeContent_chunks[of "replicate 120000 0x61"] l by (simp add: CHUNK_SIZE_def)
  have "int (chunks (analyzeContent (replicate 120000 0x61))) = \<lceil>real 120000 / real CHUNK_SIZE\<rceil>"
    using analyzeContent_chunks[of "replicate 120000 0x61"] l by simp
  also have "\<dots> = 3" by (simp add: CHUNK_SIZE_def)
  finally have e: "int (chunks (analyzeContent (replicate 120000 0x61))) = 3" .
  have f: "chunks (analyzeContent []) = 0"
    using analyzeContent_chunks[of "[]"] by blast
  show ?thesis using a b c d e f by blast
qed

section \<open>Eviction\<close>

lemma js_gt_JNum: "js_gt a (to_number (JNum m)) = (a > m)"
  by (simp add: js_gt_def to_number_def)

lemma clearCache_loop_filter:
  "clearCache_loop now olderThan entries cache =
     filter (\<lambda>(k, v). \<not> (\<exists>d. (k, d) \<in> set entries \<and> js_gt (now - ce_timestamp d) (to_number olderThan))) cache"
proof (induction entries arbitrary: cache)
  case Nil
  then show ?case by simp
next
  case (Cons e entries)
  obtain path data where e: "e = (path, data)" by (cases e)
  show ?case
  proof (cases "js_gt (now - ce_timestamp data) (to_number olderThan)")
    case True
    then show ?thesis
      unfolding e by (simp add: Cons.IH AList.delete_eq) (rule filter_cong, auto)
  next
    case False
    then show ?thesis
      unfolding e by (simp add: Cons.IH) (rule filter_cong, auto)
  qed
qed

lemma clearCache_filter:
  assumes "distinct (map fst (fileCache fm))"
  shows "fileCache (clearCache olderThan now fm) =
     filter (\<lambda>(p, d). \<not> js_gt (now - ce_timestamp d)
                (to_number (case olderThan of JUndefined \<Rightarrow> JNum 3600000 | _ \<Rightarrow> olderThan)))
       (fileCache fm)"
proof -
  have uniq: "v = d" if "(k, v) \<in> set (fileCache fm)" "(k, d) \<in> set (fileCache fm)" for k v d
    using assms that by (rule eq_key_imp_eq_value)
  show ?thesis
    unfolding clearCache_def Let_def
    apply (simp add: clearCache_loop_filter)
    apply (rule filter_cong)
     apply simp
    using uniq apply auto
    done
qed

text \<open>
  C9. On a cache (a map: no path twice) and for every \<open>maxAgeMs\<close>, \<open>clearCache\<close>
  keeps exactly the entries whose age \<open>now - timestamp\<close> is not greater than
  \<open>maxAgeMs\<close>, in their order: an entry whose age equals \<open>maxAgeMs\<close> stays. Without
  an argument \<open>maxAgeMs\<close> is 3600000.
\<close>

theorem clearCache_evicts_strictly_older:
  assumes "distinct (map fst (fileCache fm))"
  shows "fileCache (clearCache (JNum maxAgeMs) now fm) =
           filter (\<lambda>(path, data). \<not> (now - ce_timestamp data > maxAgeMs)) (fileCache fm)
     \<and> (\<forall>path data. (path, data) \<in> set (fileCache fm) \<and> now - ce_timestamp data = maxAgeMs
           \<longrightarrow> (path, data) \<in> set (fileCache (clearCache (JNum maxAgeMs) now fm)))
     \<and> clearCache JUndefined now fm = clearCache (JNum 3600000) now fm"
proof -
  have f: "fileCache (clearCache (JNum maxAgeMs) now fm) =
           filter (\<lambda>(path, data). \<not> (now - ce_timestamp data > maxAgeMs)) (fileCache fm)"
    using clearCache_filter[OF assms, of "JNum maxAgeMs" now] by (simp add: js_gt_JNum)
  have d: "clearCache JUndefined now fm = clearCache (JNum 3600000) now fm"
    by (simp add: clearCache_def)
  show ?thesis unfolding f using d by simp
qed

theorem clearCache_evicts_strictly_older_witness:
  "distinct (map fst (fileCache aged_cache))
   \<and> fileCache (clearCache (JNum 3600000) 3601000 aged_cache) =
       [(js ''edge.txt'', \<lparr> ce_content = js ''b'', ce_timestamp = 1000, ce_metadata = [] \<rparr>),
        (js ''new.txt'', \<lparr> ce_content = js ''c'', ce_timestamp = 5000, ce_metadata = [] \<rparr>)]
   \<and> clearCache JUndefined 3601000 aged_cache = clearCache (JNum 3600000) 3601000 aged_cache"
proof -
  have h: "distinct (map fst (fileCache aged_cache))"
    by (simp add: aged_cache_def js_def)
  show ?thesis
    using h clearCache_evicts_strictly_older[OF h, of 3600000 3601000]
    by (simp add: aged_cache_def)
qed

section \<open>The retry executor\<close>

lemma withRetry_loop_retry:
  assumes "attempt < maxRetries eh" "operation calls = Rejected error" "isRetryable error"
  shows "withRetry_loop eh operation context now attempt delay calls sleeps =
         withRetry_loop eh operation context now (attempt + 1) (next_delay eh delay) (calls + 1) (sleeps @ [delay])"
  using assms by (subst withRetry_loop.simps) simp

lemma withRetry_loop_skip:
  assumes "\<forall>k<j. retryable_rejection (operation (calls + k))" "attempt + int j \<le> maxRetries eh"
  shows "withRetry_loop eh operation context now attempt delay calls sleeps =
         withRetry_loop eh operation context now (attempt + int j) ((next_delay eh ^^ j) delay)
           (calls + j) (sleeps @ map (\<lambda>i. (next_delay eh ^^ i) delay) [0..<j])"
  using assms
proof (induction j arbitrary: attempt delay calls sleeps)
  case 0
  then show ?case by simp
next
  case (Suc j)
  from Suc.prems(1) have "retryable_rejection (operation (calls + 0))" by blast
  then obtain error where e: "operation calls = Rejected error" "isRetryable error"
    by (auto simp: retryable_rejection_def split: outcome.splits)
  have lt: "attempt < maxRetries eh" using Suc.prems(2) by simp
  have rest: "\<forall>k<j. retryable_rejection (operation ((calls + 1) + k))"
    using Suc.prems(1) by (metis Suc_less_eq add_Suc_right add_Suc_shift plus_1_eq_Suc add.commute)
  have le: "(attempt + 1) + int j \<le> maxRetries eh" using Suc.prems(2) by simp
  have m: "map (\<lambda>i. (next_delay eh ^^ i) delay) [0..<Suc j]
         = delay # map (\<lambda>i. (next_delay eh ^^ i) (next_delay eh delay)) [0..<j]"
    by (simp add: upt_conv_Cons map_Suc_upt[symmetric] funpow_swap1 del: upt_Suc)
  have step: "withRetry_loop eh operation context now attempt delay calls sleeps =
         withRetry_loop eh operation context now (attempt + 1) (next_delay eh delay) (calls + 1) (sleeps @ [delay])"
    using lt e by (rule withRetry_loop_retry[where operation = operation and calls = calls])
  show ?case
    unfolding step Suc.IH[OF rest le] m
    by (simp add: funpow_swap1 add.assoc)
qed

lemma next_delay_closed:
  assumes "baseDelay eh \<le> maxDelay eh" "0 \<le> maxDelay eh"
  shows "(next_delay eh ^^ k) (baseDelay eh) = min (baseDelay eh * 2 ^ k) (maxDelay eh)"
proof (induction k)
  case 0
  then show ?case using assms by simp
next
  case (Suc k)
  then show ?case using assms by (simp add: next_delay_def min_def)
qed

lemma withRetry_loop_stop:
  assumes "maxRetries eh \<le> attempt \<or> \<not> retryable_rejection (operation calls)"
  shows "rr_sleeps (withRetry_loop eh operation context now attempt delay calls sleeps) = sleeps"
  using assms
  by (subst withRetry_loop.simps) (auto simp: retryable_rejection_def split: outcome.splits)

lemma takeWhile_upt_prefix:
  fixes P :: "nat \<Rightarrow> bool" and N :: nat
  defines "m \<equiv> length (takeWhile P [0..<N])"
  shows "m \<le> N" and "\<forall>k<m. P k" and "m < N \<Longrightarrow> \<not> P m"
proof -
  have tk: "takeWhile P [0..<N] = take m [0..<N]"
    unfolding m_def by (rule takeWhile_eq_take)
  show le: "m \<le> N"
    unfolding m_def using length_takeWhile_le[of P "[0..<N]"] by simp
  have eq: "takeWhile P [0..<N] = [0..<m]"
    using tk le by (simp add: take_upt)
  show "\<forall>k<m. P k"
  proof (intro allI impI)
    fix k assume "k < m"
    then have "k \<in> set (takeWhile P [0..<N])" unfolding eq by simp
    then show "P k" by (rule set_takeWhileD[THEN conjunct2])
  qed
  show "\<not> P m" if "m < N"
  proof -
    have "length (takeWhile P [0..<N]) < length [0..<N]" using that by (simp add: m_def)
    then have "\<not> P ([0..<N] ! length (takeWhile P [0..<N]))" by (rule nth_length_takeWhile)
    then show ?thesis using that by (simp add: m_def)
  qed
qed

lemma withRetry_sleeps:
  "rr_sleeps (withRetry eh operation context now) =
     map (\<lambda>k. (next_delay eh ^^ k) (baseDelay eh))
       [0..<length (takeWhile (\<lambda>k. retryable_rejection (operation k)) [0..<nat (maxRetries eh - 1)])]"
proof -
  let ?P = "\<lambda>k. retryable_rejection (operation k)"
  let ?N = "nat (maxRetries eh - 1)"
  let ?m = "length (takeWhile ?P [0..<?N])"
  note tw = takeWhile_upt_prefix[of ?P ?N]
  show ?thesis
  proof (cases "1 \<le> maxRetries eh")
    case False
    then have "?N = 0" by simp
    then have m0: "?m = 0" by simp
    have "rr_sleeps (withRetry_loop eh operation context now 1 (baseDelay eh) 0 []) = []"
      using False by (intro withRetry_loop_stop) simp
    then show ?thesis unfolding withRetry_def m0 by simp
  next
    case True
    have all: "\<forall>k<?m. ?P (0 + k)" using tw(2) by simp
    have le: "1 + int ?m \<le> maxRetries eh" using tw(1) True by linarith
    have stop: "maxRetries eh \<le> 1 + int ?m \<or> \<not> ?P (0 + ?m)"
    proof (cases "?m < ?N")
      case True
      then show ?thesis using tw(3) by simp
    next
      case False
      then have "?m = ?N" using tw(1) by simp
      then show ?thesis using True by simp
    qed
    have "rr_sleeps (withRetry eh operation context now) =
        rr_sleeps (withRetry_loop eh operation context now (1 + int ?m)
          ((next_delay eh ^^ ?m) (baseDelay eh)) (0 + ?m)
          ([] @ map (\<lambda>i. (next_delay eh ^^ i) (baseDelay eh)) [0..<?m]))"
      unfolding withRetry_def by (subst withRetry_loop_skip[OF all le]) (rule refl)
    also have "\<dots> = [] @ map (\<lambda>i. (next_delay eh ^^ i) (baseDelay eh)) [0..<?m]"
      using stop by (rule withRetry_loop_stop[where operation = operation and calls = "0 + ?m"])
    finally show ?thesis by simp
  qed
qed

text \<open>
  C5. When the base delay is at most the maximal delay (as with 1000 and 10000) the
  waits of a run are \<open>min (baseDelay * 2 ^ k) maxDelay\<close> for \<open>k = 0, 1, ...\<close>: one
  wait after each failed eligible attempt that is not the last allowed one. With
  \<open>maxRetries = 3\<close> these are 1000 before attempt 2 and 2000 before attempt 3.
\<close>

theorem withRetry_backoff_schedule:
  assumes "baseDelay eh \<le> maxDelay eh" "0 \<le> maxDelay eh"
  shows "rr_sleeps (withRetry eh operation context now) =
     map (\<lambda>k. min (baseDelay eh * 2 ^ k) (maxDelay eh))
       [0..<length (takeWhile (\<lambda>k. retryable_rejection (operation k)) [0..<nat (maxRetries eh - 1)])]"
  unfolding withRetry_sleeps by (simp add: next_delay_closed[OF assms])

lemma enhanceError_wraps:
  "er_class error \<noteq> WorkerError \<Longrightarrow>
   enhanceError error context now =
     \<lparr> er_class = WorkerError, er_message = er_message error, er_details = None,
       er_context = Some context, er_timestamp = Some now, er_status = None, er_code = None \<rparr>"
  by (simp add: enhanceError_def new_WorkerError_def new_Error_def)

lemma validation_not_retryable: "er_class error = ValidationError \<Longrightarrow> \<not> isRetryable error"
  by (simp add: isRetryable_def)

lemma withRetry_loop_reject:
  assumes "attempt \<le> maxRetries eh" "operation calls = Rejected error" "\<not> isRetryable error"
  shows "withRetry_loop eh operation context now attempt delay calls sleeps =
     \<lparr> rr_result = Threw (enhanceError error context now), rr_calls = calls + 1, rr_sleeps = sleeps \<rparr>"
  using assms by (subst withRetry_loop.simps) simp

lemma withRetry_loop_exhausted:
  assumes "attempt = maxRetries eh" "operation calls = Rejected error" "isRetryable error"
  shows "withRetry_loop eh operation context now attempt delay calls sleeps =
     \<lparr> rr_result = Threw (enhanceError
           (new_Error Error (js ''Operation failed after '' @ show_int (maxRetries eh)
               @ js '' attempts: '' @ er_message error))
           (AList.update ''finalAttempt'' (JBool True) context) now),
       rr_calls = calls + 1, rr_sleeps = sleeps \<rparr>"
  using assms by (subst withRetry_loop.simps) simp

text \<open>
  C6. An operation whose first attempt fails with a ValidationError is invoked once:
  no wait, and the run throws the error wrapped with the supplied context and a
  timestamp.
\<close>

theorem withRetry_permanent_fails_fast:
  assumes "1 \<le> maxRetries eh" "operation 0 = Rejected error" "er_class error = ValidationError"
  shows "rr_calls (withRetry eh operation context now) = 1
     \<and> rr_sleeps (withRetry eh operation context now) = []
     \<and> rr_result (withRetry eh operation context now) = Threw (enhanceError error context now)
     \<and> er_message (enhanceError error context now) = er_message error
     \<and> er_context (enhanceError error context now) = Some context
     \<and> er_timestamp (enhanceError error context now) = Some now"
proof -
  have nr: "\<not> isRetryable error" using assms(3) by (rule validation_not_retryable)
  have run: "withRetry eh operation context now =
      \<lparr> rr_result = Threw (enhanceError error context now), rr_calls = 0 + 1, rr_sleeps = [] \<rparr>"
    unfolding withRetry_def using assms(1,2) nr
    by (rule withRetry_loop_reject[where operation = operation and calls = 0])
  have w: "er_class error \<noteq> WorkerError" using assms(3) by simp
  show ?thesis unfolding run by (simp add: enhanceError_wraps[OF w])
qed

text \<open>
  C7, as the code has it. A ValidationError raised in an attempt (after any number of
  failed eligible attempts) surfaces as a new WorkerError with the message of the
  original, the supplied context and a timestamp. The details of the original are not
  on the surfaced error.
\<close>

theorem withRetry_permanent_surfaces_wrapper:
  assumes "\<forall>k<j. retryable_rejection (operation k)" "int j < maxRetries eh"
    and "operation j = Rejected error" "er_class error = ValidationError"
  shows "rr_result (withRetry eh operation context now) =
     Threw \<lparr> er_class = WorkerError, er_message = er_message error, er_details = None,
             er_context = Some context, er_timestamp = Some now, er_status = None,
             er_code = None \<rparr>
     \<and> rr_calls (withRetry eh operation context now) = j + 1"
proof -
  have nr: "\<not> isRetryable error" using assms(4) by (rule validation_not_retryable)
  have w: "er_class error \<noteq> WorkerError" using assms(4) by simp
  have all: "\<forall>k<j. retryable_rejection (operation (0 + k))" using assms(1) by simp
  have le: "1 + int j \<le> maxRetries eh" using assms(2) by simp
  have op: "operation (0 + j) = Rejected error" using assms(3) by simp
  have "withRetry eh operation context now =
      withRetry_loop eh operation context now (1 + int j)
        ((next_delay eh ^^ j) (baseDelay eh)) (0 + j)
        ([] @ map (\<lambda>i. (next_delay eh ^^ i) (baseDelay eh)) [0..<j])"
    unfolding withRetry_def by (rule withRetry_loop_skip[OF all le])
  also have "\<dots> = \<lparr> rr_result = Threw (enhanceError error context now), rr_calls = 0 + j + 1,
        rr_sleeps = [] @ map (\<lambda>i. (next_delay eh ^^ i) (baseDelay eh)) [0..<j] \<rparr>"
    using le op nr by (rule withRetry_loop_reject[where operation = operation and calls = "0 + j"])
  finally show ?thesis by (simp add: enhanceError_wraps[OF w])
qed

text \<open>
  C8. An operation that fails with a retryable error on each of the \<open>maxRetries\<close>
  attempts is invoked \<open>maxRetries\<close> times, and the run throws a wrapped error whose
  message gives \<open>maxRetries\<close> and the message of the last error.
\<close>

theorem withRetry_exhaustion:
  assumes "1 \<le> maxRetries eh" "\<forall>k < nat (maxRetries eh). retryable_rejection (operation k)"
  shows "\<exists>last. operation (nat (maxRetries eh) - 1) = Rejected last
     \<and> rr_result (withRetry eh operation context now) =
         Threw \<lparr> er_class = WorkerError,
                 er_message = js ''Operation failed after '' @ show_int (maxRetries eh)
                    @ js '' attempts: '' @ er_message last,
                 er_details = None,
                 er_context = Some (AList.update ''finalAttempt'' (JBool True) context),
                 er_timestamp = Some now, er_status = None, er_code = None \<rparr>
     \<and> rr_calls (withRetry eh operation context now) = nat (maxRetries eh)"
proof -
  let ?j = "nat (maxRetries eh) - 1"
  have jl: "?j < nat (maxRetries eh)" using assms(1) by simp
  then have "retryable_rejection (operation ?j)" using assms(2) by blast
  then obtain last where l: "operation ?j = Rejected last" "isRetryable last"
    by (auto simp: retryable_rejection_def split: outcome.splits)
  have all: "\<forall>k<?j. retryable_rejection (operation (0 + k))" using assms(2) by simp
  have at: "1 + int ?j = maxRetries eh" using assms(1) by simp
  have le: "1 + int ?j \<le> maxRetries eh" using at by simp
  have op: "operation (0 + ?j) = Rejected last" using l(1) by simp
  have run: "withRetry eh operation context now =
     \<lparr> rr_result = Threw (enhanceError
           (new_Error Error (js ''Operation failed after '' @ show_int (maxRetries eh)
               @ js '' attempts: '' @ er_message last))
           (AList.update ''finalAttempt'' (JBool True) context) now),
       rr_calls = 0 + ?j + 1,
       rr_sleeps = [] @ map (\<lambda>i. (next_delay eh ^^ i) (baseDelay eh)) [0..<?j] \<rparr>"
  proof -
    have "withRetry eh operation context now =
        withRetry_loop eh operation context now (1 + int ?j)
          ((next_delay eh ^^ ?j) (baseDelay eh)) (0 + ?j)
          ([] @ map (\<lambda>i. (next_delay eh ^^ i) (baseDelay eh)) [0..<?j])"
      unfolding withRetry_def by (rule withRetry_loop_skip[OF all le])
    also have "\<dots> = \<lparr> rr_result = Threw (enhanceError
           (new_Error Error (js ''Operation failed after '' @ show_int (maxRetries eh)
               @ js '' attempts: '' @ er_message last))
           (AList.update ''finalAttempt'' (JBool True) context) now),
       rr_calls = 0 + ?j + 1,
       rr_sleeps = [] @ map (\<lambda>i. (next_delay eh ^^ i) (baseDelay eh)) [0..<?j] \<rparr>"
      using at op l(2) by (rule withRetry_loop_exhausted[where operation = operation and calls = "0 + ?j"])
    finally show ?thesis .
  qed
  have calls: "0 + ?j + 1 = nat (maxRetries eh)" using assms(1) by simp
  show ?thesis
    using l(1) unfolding run calls
    by (simp add: enhanceError_def new_WorkerError_def new_Error_def)
qed

lemma default_handler_fields:
  "maxRetries default_handler = 3" "baseDelay default_handler = 1000" "maxDelay default_handler = 10000"
  by (simp_all add: default_handler_def ErrorHandler_new_def or_default_def)

lemma always_retryable_rejection: "retryable_rejection (always_retryable k)"
  by (simp add: retryable_rejection_def always_retryable_def isRetryable_def new_RetryableError_def new_Error_def)

theorem withRetry_backoff_schedule_witness:
  "baseDelay default_handler = 1000 \<and> maxDelay default_handler = 10000
   \<and> maxRetries default_handler = 3
   \<and> baseDelay default_handler \<le> maxDelay default_handler \<and> 0 \<le> maxDelay default_handler
   \<and> rr_sleeps (withRetry default_handler always_retryable [] 0) = [1000, 2000]"
proof -
  have a: "baseDelay default_handler \<le> maxDelay default_handler"
    by (simp add: default_handler_fields)
  have b: "0 \<le> maxDelay default_handler"
    by (simp add: default_handler_fields)
  have "rr_sleeps (withRetry default_handler always_retryable [] 0) = [1000, 2000]"
    unfolding withRetry_backoff_schedule[OF a b]
    by (simp add: default_handler_fields always_retryable_rejection upt_rec)
  then show ?thesis using a b by (simp add: default_handler_fields)
qed

theorem withRetry_permanent_fails_fast_witness:
  "1 \<le> maxRetries default_handler
   \<and> rr_calls (withRetry default_handler invalid_input [(''step'', JStr (js ''validate''))] 1700000000000) = 1
   \<and> rr_sleeps (withRetry default_handler invalid_input [(''step'', JStr (js ''validate''))] 1700000000000) = []
   \<and> rr_result (withRetry default_handler invalid_input [(''step'', JStr (js ''validate''))] 1700000000000) =
       Threw \<lparr> er_class = WorkerError, er_message = js ''bad spec'', er_details = None,
               er_context = Some [(''step'', JStr (js ''validate''))],
               er_timestamp = Some 1700000000000, er_status = None, er_code = None \<rparr>"
proof -
  have a: "1 \<le> maxRetries default_handler" by (simp add: default_handler_fields)
  have b: "invalid_input 0 = Rejected (new_ValidationError (js ''bad spec'') [js ''name is required''])"
    by (simp add: invalid_input_def)
  have c: "er_class (new_ValidationError (js ''bad spec'') [js ''name is required'']) = ValidationError"
    by (simp add: new_ValidationError_def new_Error_def)
  show ?thesis
    using a withRetry_permanent_fails_fast[where operation = invalid_input, OF a b c,
        of "[(''step'', JStr (js ''validate''))]" 1700000000000]
    by (simp add: enhanceError_def new_ValidationError_def new_WorkerError_def new_Error_def)
qed

text \<open>
  The surfaced error of a ValidationError with one detail string has no details: it
  is not the original error with context and timestamp added.
\<close>

theorem withRetry_details_counterexample:
  "rr_result (withRetry default_handler invalid_input [] 1700000000000) =
       Threw \<lparr> er_class = WorkerError, er_message = js ''bad spec'', er_details = None,
               er_context = Some [], er_timestamp = Some 1700000000000,
               er_status = None, er_code = None \<rparr>
   \<and> er_details (new_ValidationError (js ''bad spec'') [js ''name is required'']) = Some [js ''name is required'']
   \<and> rr_result (withRetry default_handler invalid_input [] 1700000000000) \<noteq>
       Threw ((new_ValidationError (js ''bad spec'') [js ''name is required''])
                \<lparr> er_context := Some [], er_timestamp := Some 1700000000000 \<rparr>)"
proof -
  have "invalid_input 0 = Rejected (new_ValidationError (js ''bad spec'') [js ''name is required''])"
    by (simp add: invalid_input_def)
  moreover have "\<not> isRetryable (new_ValidationError (js ''bad spec'') [js ''name is required''])"
    by (simp add: validation_not_retryable new_ValidationError_def new_Error_def)
  moreover have "1 \<le> maxRetries default_handler" by (simp add: default_handler_fields)
  ultimately have "withRetry default_handler invalid_input [] 1700000000000 =
     \<lparr> rr_result = Threw (enhanceError (new_ValidationError (js ''bad spec'') [js ''name is required'']) [] 1700000000000),
       rr_calls = 0 + 1, rr_sleeps = [] \<rparr>"
    unfolding withRetry_def
    by (intro withRetry_loop_reject[where operation = invalid_input and calls = 0])
  then show ?thesis
    by (simp add: enhanceError_def new_ValidationError_def new_WorkerError_def new_Error_def)
qed

theorem withRetry_permanent_surfaces_wrapper_witness:
  "retryable_rejection ((\<lambda>k. if k = 0 then always_retryable k else invalid_input k) 0)
   \<and> int 1 < maxRetries default_handler
   \<and> rr_result (withRetry default_handler (\<lambda>k. if k = 0 then always_retryable k else invalid_input k)
        [(''step'', JStr (js ''validate''))] 1700000000000) =
       Threw \<lparr> er_class = WorkerError, er_message = js ''bad spec'', er_details = None,
               er_context = Some [(''step'', JStr (js ''validate''))],
               er_timestamp = Some 1700000000000, er_status = None, er_code = None \<rparr>
   \<and> rr_calls (withRetry default_handler (\<lambda>k. if k = 0 then always_retryable k else invalid_input k)
        [(''step'', JStr (js ''validate''))] 1700000000000) = 2"
proof -
  let ?op = "\<lambda>k. if k = 0 then always_retryable k else invalid_input k"
  have a: "\<forall>k<1. retryable_rejection (?op k)" by (simp add: always_retryable_rejection)
  have b: "int 1 < maxRetries default_handler" by (simp add: default_handler_fields)
  have c: "?op 1 = Rejected (new_ValidationError (js ''bad spec'') [js ''name is required''])"
    by (simp add: invalid_input_def)
  have d: "er_class (new_ValidationError (js ''bad spec'') [js ''name is required'']) = ValidationError"
    by (simp add: new_ValidationError_def new_Error_def)
  have e: "retryable_rejection (?op 0)" by (simp add: always_retryable_rejection)
  show ?thesis
    using e b withRetry_permanent_surfaces_wrapper[where operation = ?op, OF a b c d,
        of "[(''step'', JStr (js ''validate''))]" 1700000000000]
    by (simp add: new_ValidationError_def new_Error_def)
qed

theorem withRetry_exhaustion_witness:
  "1 \<le> maxRetries default_handler
   \<and> rr_calls (withRetry default_handler always_retryable [] 1700000000000) = 3
   \<and> rr_result (withRetry default_handler always_retryable [] 1700000000000) =
       Threw \<lparr> er_class = WorkerError,
               er_message = js ''Operation failed after 3 attempts: boom'',
               er_details = None, er_context = Some [(''finalAttempt'', JBool True)],
               er_timestamp = Some 1700000000000, er_status = None, er_code = None \<rparr>"
proof -
  have a: "1 \<le> maxRetries default_handler" by (simp add: default_handler_fields)
  have b: "\<forall>k < nat (maxRetries default_handler). retryable_rejection (always_retryable k)"
    by (simp add: always_retryable_rejection)
  have m: "js ''Operation failed after '' @ show_int 3 @ js '' attempts: '' @ js ''boom''
         = js ''Operation failed after 3 attempts: boom''"
    by (simp add: js_def show_int_def show_nat.simps digit_char_def)
  from withRetry_exhaustion[where operation = always_retryable, OF a b, of "[]" 1700000000000]
  obtain last where l: "always_retryable (nat (maxRetries default_handler) - 1) = Rejected last"
    and r: "rr_result (withRetry default_handler always_retryable [] 1700000000000) =
         Threw \<lparr> er_class = WorkerError,
                 er_message = js ''Operation failed after '' @ show_int (maxRetries default_handler)
                    @ js '' attempts: '' @ er_message last,
                 er_details = None,
                 er_context = Some (AList.update ''finalAttempt'' (JBool True) []),
                 er_timestamp = Some 1700000000000, er_status = None, er_code = None \<rparr>"
    and c: "rr_calls (withRetry default_handler always_retryable [] 1700000000000) = nat (maxRetries default_handler)"
    by blast
  have "last = new_RetryableError (js ''boom'')" using l by (simp add: always_retryable_def)
  then have "er_message last = js ''boom''" by (simp add: new_RetryableError_def new_Error_def)
  then show ?thesis
    using a r c m by (simp add: default_handler_fields)
qed

section \<open>The chunked-write orchestrator\<close>

lemma updateChunkProgress_known:
  assumes "map_of (pendingChunks cm) operationId = Some operation"
  shows "updateChunkProgress operationId index result cm =
     (if op_completed operation + 1 = op_total operation then Inl missing_method else Inr (),
      cm\<lparr> pendingChunks := AList.update operationId
            (operation\<lparr> op_chunks := AList.update index result (op_chunks operation),
                         op_completed := op_completed operation + 1 \<rparr>)
            (pendingChunks cm) \<rparr>)"
  using assms
  by (simp add: updateChunkProgress_def handleCompletedOperation_def missing_method_def Let_def)

lemma writeChunk_known:
  assumes "map_of (pendingChunks cm) operationId = Some operation"
  shows "writeChunk t1 t2 path content index operationId cm =
       (if op_completed operation + 1 = op_total operation then Inl missing_method
        else Inr \<lparr> wr_path = getChunkPath path index, wr_size = length content,
                   wr_cached = True, wr_timestamp = t2 \<rparr>,
        cm\<lparr> fileManager := snd (writeSingleFile t1 t2 (getChunkPath path index) content
                 (Some [(''operationId'', JStr operationId), (''index'', JNum (int index)),
                        (''isChunk'', JBool True)]) (fileManager cm)),
            pendingChunks := AList.update operationId
              (operation\<lparr> op_chunks := AList.update index
                               \<lparr> wr_path = getChunkPath path index, wr_size = length content,
                                 wr_cached = True, wr_timestamp = t2 \<rparr> (op_chunks operation),
                           op_completed := op_completed operation + 1 \<rparr>)
              (pendingChunks cm) \<rparr>)"
proof -
  have u: "updateChunkProgress operationId index result (cm\<lparr> fileManager := fm \<rparr>) =
     (if op_completed operation + 1 = op_total operation then Inl missing_method else Inr (),
      cm\<lparr> fileManager := fm,
          pendingChunks := AList.update operationId
            (operation\<lparr> op_chunks := AList.update index result (op_chunks operation),
                         op_completed := op_completed operation + 1 \<rparr>)
            (pendingChunks cm) \<rparr>)" for result fm
    using updateChunkProgress_known[of "cm\<lparr> fileManager := fm \<rparr>" operationId operation index result] assms
    by simp
  show ?thesis
    unfolding writeChunk_def Let_def
    by (simp add: u writeSingleFile_def)
qed

lemma handleChunkedWrite_loop_throws:
  assumes "map_of (pendingChunks cm) operationId = Some operation"
    and "op_total operation = length chunkList" "op_completed operation = i" "i < length chunkList"
  shows "fst (handleChunkedWrite_loop clock path chunkList operationId i results cm) = Inl missing_method"
  using assms
proof (induction clock path chunkList operationId i results cm arbitrary: operation
       rule: handleChunkedWrite_loop.induct)
  case (1 clock path chunkList operationId i results cm)
  obtain result cm' where w: "writeChunk (clock (2 * i + 1)) (clock (2 * i + 2)) path (chunkList ! i) i operationId cm =
       (if op_completed operation + 1 = op_total operation then Inl missing_method else Inr result, cm')"
    and p: "map_of (pendingChunks cm') operationId =
         Some (operation\<lparr> op_chunks := AList.update i result (op_chunks operation),
                           op_completed := op_completed operation + 1 \<rparr>)"
    unfolding writeChunk_known[OF "1.prems"(1)] by (simp add: update_conv')
  show ?case
  proof (cases "i + 1 = length chunkList")
    case True
    then show ?thesis
      using "1.prems" w by (subst handleChunkedWrite_loop.simps) simp
  next
    case False
    then have lt: "i + 1 < length chunkList" using "1.prems"(4) by simp
    have w': "writeChunk (clock (2 * i + 1)) (clock (2 * i + 2)) path (chunkList ! i) i operationId cm = (Inr result, cm')"
      using w False "1.prems" by simp
    have ih: "fst (handleChunkedWrite_loop clock path chunkList operationId (i + 1) (results @ [result]) cm') = Inl missing_method"
      using "1.IH"[OF "1.prems"(4) w'[symmetric] refl p] "1.prems" lt by simp
    show ?thesis
      using "1.prems"(4) w' ih by (subst handleChunkedWrite_loop.simps) simp
  qed
qed

lemma length_splitContent: "length (splitContent content n) = n"
  by (simp add: splitContent_map)

lemma handleChunkedWrite_throws:
  assumes "0 < chunks analysis"
  shows "fst (handleChunkedWrite clock rnd path content analysis cm) = Inl missing_method"
proof -
  let ?id = "generateOperationId (clock 0) rnd"
  let ?cl = "splitContent content (chunks analysis)"
  let ?op = "\<lparr> op_total = length ?cl, op_completed = 0, op_chunks = [] \<rparr>"
  let ?cm = "cm\<lparr> pendingChunks := AList.update ?id ?op (pendingChunks cm) \<rparr>"
  have "fst (handleChunkedWrite_loop clock path ?cl ?id 0 [] ?cm) = Inl missing_method"
    using assms by (intro handleChunkedWrite_loop_throws[where operation = ?op])
      (simp_all add: update_conv' length_splitContent)
  then obtain cm' where "handleChunkedWrite_loop clock path ?cl ?id 0 [] ?cm = (Inl missing_method, cm')"
    by (cases "handleChunkedWrite_loop clock path ?cl ?id 0 [] ?cm") simp
  then show ?thesis
    unfolding handleChunkedWrite_def Let_def by simp
qed

lemma requiresChunking_chunks: "requiresChunking (analyzeContent content) \<Longrightarrow> 2 \<le> chunks (analyzeContent content)"
proof -
  assume "requiresChunking (analyzeContent content)"
  then have "CHUNK_SIZE < utf8_length content" by (simp add: analyzeContent_def Let_def)
  then have "2 * CHUNK_SIZE \<le> utf8_length content + CHUNK_SIZE - 1" by simp
  then have "2 \<le> (utf8_length content + CHUNK_SIZE - 1) div CHUNK_SIZE"
    by (simp add: CHUNK_SIZE_def)
  then show ?thesis by (simp add: analyzeContent_def Let_def ceil_div_def)
qed

lemma writeContentInChunks_throws:
  assumes "requiresChunking (analyzeContent content)"
  shows "fst (writeContentInChunks clock rnd path content cm) = Inl missing_method"
proof -
  have "0 < chunks (analyzeContent content)" using requiresChunking_chunks[OF assms] by simp
  then have "fst (handleChunkedWrite clock rnd path content (analyzeContent content) cm) = Inl missing_method"
    by (rule handleChunkedWrite_throws)
  then obtain cm' where "handleChunkedWrite clock rnd path content (analyzeContent content) cm = (Inl missing_method, cm')"
    by (cases "handleChunkedWrite clock rnd path content (analyzeContent content) cm") simp
  then show ?thesis
    using assms unfolding writeContentInChunks_def Let_def by simp
qed

lemma insert_sorted_throws: "ys \<noteq> [] \<Longrightarrow> insert_sorted compare_index x ys = Inl undefined_metadata"
  by (cases ys) (simp_all add: compare_index_def result_metadata_def undefined_metadata_def)

lemma sort_with_results:
  "sort_with compare_index rs = (if 2 \<le> length rs then Inl undefined_metadata else Inr rs)"
proof (induction rs)
  case Nil
  then show ?case by simp
next
  case (Cons r rs)
  show ?case
  proof (cases "rs = []")
    case True
    then show ?thesis by simp
  next
    case ne: False
    then have two: "2 \<le> length (r # rs)" by (cases rs) simp_all
    show ?thesis
    proof (cases "2 \<le> length rs")
      case True
      then show ?thesis using Cons.IH by simp
    next
      case False
      then have "sort_with compare_index rs = Inr rs" using Cons.IH by simp
      then have "sort_with compare_index (r # rs) = Inl undefined_metadata"
        by (simp add: insert_sorted_throws[OF ne])
      then show ?thesis using two by simp
    qed
  qed
qed

lemma concatenateChunks_results:
  "concatenateChunks rs = (if 2 \<le> length rs then Inl undefined_metadata else Inr [])"
  by (simp add: concatenateChunks_def sort_with_results result_content_def)

lemma unat_of_char16: "unat (of_char c :: 16 word) = of_char c"
proof -
  have lt: "(of_char c :: nat) < 256"
    using of_char_mod_256[of c, where ?'a = nat] by (metis mod_less_divisor zero_less_numeral)
  have "(of_char c :: 16 word) = of_nat (of_char c)" by (simp add: of_nat_of_char)
  then have "unat (of_char c :: 16 word) = (of_char c :: nat) mod 2 ^ 16"
    by (simp add: unat_of_nat)
  then show ?thesis using lt by simp
qed

lemma of_char_inj16: "(of_char c :: 16 word) = of_char d \<longleftrightarrow> c = d"
proof
  assume "(of_char c :: 16 word) = of_char d"
  then have "unat (of_char c :: 16 word) = unat (of_char d :: 16 word)" by simp
  then have "(of_char c :: nat) = of_char d" by (simp only: unat_of_char16)
  then show "c = d" by simp
qed simp

lemma js_eq_iff: "js a = js b \<longleftrightarrow> a = b"
  unfolding js_def by (rule inj_map_eq_map) (simp add: inj_def of_char_inj16)

lemma big_analysis:
  "analyzeContent big_content =
     \<lparr> size_a = 120000, requiresChunking = True, chunks = 3, approachingLimit = True \<rparr>"
  by (simp add: analyzeContent_def big_content_def utf8_length_ascii Let_def CHUNK_SIZE_def
        WARNING_THRESHOLD_def ceil_div_def)

lemma big_split:
  "splitContent big_content 3 = [replicate 40000 0x61, replicate 40000 0x61, replicate 40000 0x61]"
proof -
  have u: "[0..<3] = [0, 1, 2]" by code_simp
  show ?thesis
    by (simp add: splitContent_map u big_content_def ceil_div_def slice_eq)
qed

lemma show_nat_digit: "n < 10 \<Longrightarrow> show_nat n = [digit_char n]"
  by (subst show_nat.simps) simp

lemma show_nat_step: "10 \<le> n \<Longrightarrow> show_nat n = show_nat (n div 10) @ [digit_char (n mod 10)]"
  by (subst show_nat.simps) simp

lemma op_id: "generateOperationId (tick 0) (js ''k3j9x2m1q'') = js ''chunk_1700000000000_k3j9x2m1q''"
  by (simp add: generateOperationId_def tick_def show_int_def show_nat_step show_nat_digit digit_char_def js_def)

lemma chunk_paths:
  "getChunkPath (js ''out.txt'') 0 = js ''out.part0.txt''"
  "getChunkPath (js ''out.txt'') (Suc 0) = js ''out.part1.txt''"
  "getChunkPath (js ''out.txt'') (Suc (Suc 0)) = js ''out.part2.txt''"
  by code_simp+

lemma loop_unfold:
  "handleChunkedWrite_loop clock path chunkList operationId i results cm =
     (if i < length chunkList then
        (case writeChunk (clock (2 * i + 1)) (clock (2 * i + 2)) path (chunkList ! i) i operationId cm of
           (Inl e, cm) \<Rightarrow> (Inl e, cm)
         | (Inr result, cm) \<Rightarrow>
             handleChunkedWrite_loop clock path chunkList operationId (i + 1) (results @ [result]) cm)
      else (Inr results, cm))"
  by (rule handleChunkedWrite_loop.simps)

lemma failed_write:
  "writeContentInChunks tick (js ''k3j9x2m1q'') (js ''out.txt'') big_content ChunkManager_new =
     (Inl missing_method, failed_write_state)"
  unfolding writeContentInChunks_def big_analysis handleChunkedWrite_def Let_def op_id
  apply (simp add: big_split)
  apply (subst loop_unfold)
  apply (simp add: writeChunk_def writeSingleFile_def updateChunkProgress_def Let_def chunk_paths
       ChunkManager_new_def FileManager_new_def tick_def)
  apply (subst loop_unfold)
  apply (simp add: writeChunk_def writeSingleFile_def updateChunkProgress_def Let_def chunk_paths
       tick_def js_eq_iff)
  apply (subst loop_unfold)
  apply (simp add: writeChunk_def writeSingleFile_def updateChunkProgress_def Let_def chunk_paths
       tick_def js_eq_iff handleCompletedOperation_def missing_method_def failed_write_state_def)
  done

lemma finalize_unknown:
  "map_of (pendingChunks cm) operationId = None \<Longrightarrow>
   finalizeChunkedOperation t1 t2 operationId path cm = (Inr None, cm)"
  by (simp add: finalizeChunkedOperation_def)

lemma finalize_discards:
  assumes "finalizeChunkedOperation t1 t2 operationId path cm = (Inr (Some c), cm')"
  shows "map_of (pendingChunks cm') operationId = None"
proof (cases "map_of (pendingChunks cm) operationId")
  case None
  then show ?thesis using assms by (simp add: finalizeChunkedOperation_def)
next
  case (Some operation)
  have "map_of (AList.delete operationId (pendingChunks cm)) operationId = None"
    by (simp add: delete_conv')
  then show ?thesis
    using assms Some
    by (auto simp: finalizeChunkedOperation_def Let_def writeSingleFile_def split: sum.splits)
qed

text \<open>
  C1, as the code has it. \<open>completed\<close> counts deliveries: every success delivered
  for a known operation adds one to it, also for an index already recorded, while the
  map of results keeps one entry per index, so a repeated index leaves the recorded
  indices as they were. \<open>finalizeChunkedOperation\<close> does nothing for an unknown
  operation and discards the record of the operation when it completes, so that a
  second call for the same operation does nothing.
\<close>

theorem updateChunkProgress_counts_deliveries:
  "(map_of (pendingChunks cm) operationId = Some operation \<longrightarrow>
      map_of (pendingChunks (snd (updateChunkProgress operationId index result cm))) operationId =
        Some (operation\<lparr> op_chunks := AList.update index result (op_chunks operation),
                          op_completed := op_completed operation + 1 \<rparr>)
      \<and> (index \<in> fst ` set (op_chunks operation) \<longrightarrow>
            map fst (AList.update index result (op_chunks operation)) = map fst (op_chunks operation)))
   \<and> (map_of (pendingChunks cm) operationId = None \<longrightarrow>
        finalizeChunkedOperation t1 t2 operationId path cm = (Inr None, cm))
   \<and> (finalizeChunkedOperation t1 t2 operationId path cm = (Inr (Some c), cm') \<longrightarrow>
        map_of (pendingChunks cm') operationId = None
        \<and> finalizeChunkedOperation t3 t4 operationId path cm' = (Inr None, cm'))"
proof -
  have a: "map_of (pendingChunks (snd (updateChunkProgress operationId index result cm))) operationId =
        Some (operation\<lparr> op_chunks := AList.update index result (op_chunks operation),
                          op_completed := op_completed operation + 1 \<rparr>)"
    if "map_of (pendingChunks cm) operationId = Some operation"
    by (simp add: updateChunkProgress_known[OF that] update_conv')
  have b: "map fst (AList.update index result (op_chunks operation)) = map fst (op_chunks operation)"
    if "index \<in> fst ` set (op_chunks operation)"
    using that by (simp add: update_keys)
  have c: "map_of (pendingChunks cm') operationId = None
        \<and> finalizeChunkedOperation t3 t4 operationId path cm' = (Inr None, cm')"
    if "finalizeChunkedOperation t1 t2 operationId path cm = (Inr (Some c), cm')"
    using finalize_discards[OF that] by (simp add: finalize_unknown)
  show ?thesis using a b c finalize_unknown by blast
qed

text \<open>
  An operation of three chunks with chunk 0 recorded has \<open>completed = 1\<close>; after a
  second success for chunk 0 it has \<open>completed = 2\<close>, with chunk 0 still the only
  recorded index.
\<close>

theorem updateChunkProgress_redelivery_counterexample:
  "map_of (pendingChunks one_chunk_done) (js ''chunk_1700000000000_k3j9x2m1q'') =
       Some \<lparr> op_total = 3, op_completed = 1, op_chunks = [(0, first_result)] \<rparr>
   \<and> map_of (pendingChunks (snd (updateChunkProgress (js ''chunk_1700000000000_k3j9x2m1q'') 0
               first_result one_chunk_done))) (js ''chunk_1700000000000_k3j9x2m1q'') =
       Some \<lparr> op_total = 3, op_completed = 2, op_chunks = [(0, first_result)] \<rparr>
   \<and> getOperationStatus (js ''chunk_1700000000000_k3j9x2m1q'')
         (snd (updateChunkProgress (js ''chunk_1700000000000_k3j9x2m1q'') 0 first_result one_chunk_done)) =
       Some \<lparr> st_total = 3, st_completed = 2, st_isComplete = False \<rparr>"
  by (simp add: getOperationStatus_def updateChunkProgress_def one_chunk_done_def Let_def)

theorem updateChunkProgress_counts_deliveries_witness:
  "map_of (pendingChunks one_chunk_done) (js ''chunk_1700000000000_k3j9x2m1q'') =
       Some \<lparr> op_total = 3, op_completed = 1, op_chunks = [(0, first_result)] \<rparr>
   \<and> (0::nat) \<in> fst ` set [(0, first_result)]
   \<and> map_of (pendingChunks (snd (updateChunkProgress (js ''chunk_1700000000000_k3j9x2m1q'') 0
               first_result one_chunk_done))) (js ''chunk_1700000000000_k3j9x2m1q'') =
       Some \<lparr> op_total = 3, op_completed = 2, op_chunks = [(0, first_result)] \<rparr>
   \<and> map_of (pendingChunks one_chunk_done) (js ''other'') = None
   \<and> finalizeChunkedOperation 1700000000003 1700000000004 (js ''other'') (js ''out.txt'') one_chunk_done =
       (Inr None, one_chunk_done)
   \<and> finalizeChunkedOperation 1700000000003 1700000000004 (js ''chunk_1700000000000_k3j9x2m1q'')
         (js ''out.txt'') one_chunk_done = (Inr (Some []), finalized_early)
   \<and> finalizeChunkedOperation 1700000000005 1700000000006 (js ''chunk_1700000000000_k3j9x2m1q'')
         (js ''out.txt'') finalized_early = (Inr None, finalized_early)"
proof -
  let ?id = "js ''chunk_1700000000000_k3j9x2m1q''"
  let ?op = "\<lparr> op_total = 3, op_completed = 1, op_chunks = [(0, first_result)] \<rparr>"
  have k: "map_of (pendingChunks one_chunk_done) ?id = Some ?op"
    by (simp add: one_chunk_done_def)
  have i: "(0::nat) \<in> fst ` set (op_chunks ?op)" by simp
  have u: "map_of (pendingChunks one_chunk_done) (js ''other'') = None"
    by (simp add: one_chunk_done_def js_eq_iff)
  have f: "finalizeChunkedOperation 1700000000003 1700000000004 ?id (js ''out.txt'') one_chunk_done =
       (Inr (Some []), finalized_early)"
    by (simp add: finalizeChunkedOperation_def one_chunk_done_def finalized_early_def Let_def
          concatenateChunks_results writeSingleFile_def js_eq_iff)
  note t = updateChunkProgress_counts_deliveries
  have "map_of (pendingChunks (snd (updateChunkProgress ?id 0 first_result one_chunk_done))) ?id =
        Some (?op\<lparr> op_chunks := AList.update 0 first_result (op_chunks ?op),
                    op_completed := op_completed ?op + 1 \<rparr>)"
    using t[of one_chunk_done ?id ?op 0 first_result] k by blast
  then have a: "map_of (pendingChunks (snd (updateChunkProgress ?id 0 first_result one_chunk_done))) ?id =
       Some \<lparr> op_total = 3, op_completed = 2, op_chunks = [(0, first_result)] \<rparr>"
    by simp
  have b: "finalizeChunkedOperation 1700000000003 1700000000004 (js ''other'') (js ''out.txt'') one_chunk_done =
       (Inr None, one_chunk_done)"
    using t[of one_chunk_done "js ''other''"] u by blast
  have c: "finalizeChunkedOperation 1700000000005 1700000000006 ?id (js ''out.txt'') finalized_early =
       (Inr None, finalized_early)"
    using t[of one_chunk_done ?id _ _ _ 1700000000003 1700000000004 "js ''out.txt''" "[]" finalized_early] f
    by blast
  show ?thesis using k i a u b f c by simp
qed

lemma finalize_throws:
  assumes "map_of (pendingChunks cm) operationId = Some operation" "2 \<le> length (op_chunks operation)"
  shows "finalizeChunkedOperation t1 t2 operationId path cm = (Inl undefined_metadata, cm)"
  using assms by (simp add: finalizeChunkedOperation_def Let_def concatenateChunks_results)

text \<open>
  C2, what the code does. For every content that requires chunking
  \<open>writeContentInChunks\<close> ends with the TypeError of the call
  \<open>this.handleCompletedOperation\<close>, raised when the last chunk is recorded, before
  \<open>finalizeChunkedOperation\<close> is reached. \<open>finalizeChunkedOperation\<close> itself, on
  an operation with two or more recorded results, ends with the TypeError of the
  comparator and writes nothing.
\<close>

theorem writeContentInChunks_never_finalizes:
  "(requiresChunking (analyzeContent content) \<longrightarrow>
      fst (writeContentInChunks clock rnd path content cm) = Inl missing_method)
   \<and> (map_of (pendingChunks cm) operationId = Some operation \<and> 2 \<le> length (op_chunks operation) \<longrightarrow>
        finalizeChunkedOperation t1 t2 operationId path cm = (Inl undefined_metadata, cm))"
  using writeContentInChunks_throws finalize_throws by blast

theorem writeContentInChunks_never_finalizes_witness:
  "utf8_length big_content = 120000
   \<and> requiresChunking (analyzeContent big_content)
   \<and> writeContentInChunks tick (js ''k3j9x2m1q'') (js ''out.txt'') big_content ChunkManager_new =
       (Inl missing_method, failed_write_state)
   \<and> map fst (fileCache (fileManager failed_write_state)) =
       [js ''out.part0.txt'', js ''out.part1.txt'', js ''out.part2.txt'']
   \<and> getCached (js ''out.txt'') (fileManager failed_write_state) = None
   \<and> 2 \<le> length (op_chunks \<lparr> op_total = 3, op_completed = 3,
             op_chunks =
               [(0, \<lparr> wr_path = js ''out.part0.txt'', wr_size = 40000, wr_cached = True,
                      wr_timestamp = 1700000000002 \<rparr>),
                (1, \<lparr> wr_path = js ''out.part1.txt'', wr_size = 40000, wr_cached = True,
                      wr_timestamp = 1700000000004 \<rparr>),
                (2, \<lparr> wr_path = js ''out.part2.txt'', wr_size = 40000, wr_cached = True,
                      wr_timestamp = 1700000000006 \<rparr>)] \<rparr>)
   \<and> finalizeChunkedOperation 1700000000007 1700000000008 (js ''chunk_1700000000000_k3j9x2m1q'')
         (js ''out.txt'') failed_write_state = (Inl undefined_metadata, failed_write_state)"
proof -
  let ?id = "js ''chunk_1700000000000_k3j9x2m1q''"
  let ?op = "\<lparr> op_total = 3, op_completed = 3,
             op_chunks =
               [(0, \<lparr> wr_path = js ''out.part0.txt'', wr_size = 40000, wr_cached = True,
                      wr_timestamp = 1700000000002 \<rparr>),
                (1, \<lparr> wr_path = js ''out.part1.txt'', wr_size = 40000, wr_cached = True,
                      wr_timestamp = 1700000000004 \<rparr>),
                (2, \<lparr> wr_path = js ''out.part2.txt'', wr_size = 40000, wr_cached = True,
                      wr_timestamp = 1700000000006 \<rparr>)] \<rparr>"
  note t = writeContentInChunks_never_finalizes
  have l: "utf8_length big_content = 120000"
    by (simp add: big_content_def utf8_length_ascii)
  have r: "requiresChunking (analyzeContent big_content)" by (simp add: big_analysis)
  have e: "fst (writeContentInChunks tick (js ''k3j9x2m1q'') (js ''out.txt'') big_content ChunkManager_new)
            = Inl missing_method"
    using t[of big_content] r by blast
  have w: "writeContentInChunks tick (js ''k3j9x2m1q'') (js ''out.txt'') big_content ChunkManager_new =
       (Inl missing_method, failed_write_state)"
    using e failed_write by simp
  have k: "map fst (fileCache (fileManager failed_write_state)) =
       [js ''out.part0.txt'', js ''out.part1.txt'', js ''out.part2.txt'']"
    by (simp add: failed_write_state_def)
  have g: "getCached (js ''out.txt'') (fileManager failed_write_state) = None"
    by (simp add: getCached_def failed_write_state_def js_eq_iff)
  have p: "map_of (pendingChunks failed_write_state) ?id = Some ?op"
    by (simp add: failed_write_state_def)
  have n: "2 \<le> length (op_chunks ?op)" by simp
  have f: "finalizeChunkedOperation 1700000000007 1700000000008 ?id (js ''out.txt'') failed_write_state
            = (Inl undefined_metadata, failed_write_state)"
    using t[of _ _ _ _ failed_write_state ?id ?op] p n by blast
  show ?thesis using l r w k g n f by blast
qed

lemma clearCache_loop_NaN:
  "to_number olderThan = NaN \<Longrightarrow> clearCache_loop now olderThan entries cache = cache"
  by (induction entries arbitrary: cache) (auto simp: js_gt_def)

lemma clearCache_path:
  "string_to_number path = NaN \<Longrightarrow> clearCache (JStr path) now fm = fm"
  by (simp add: clearCache_def clearCache_loop_NaN to_number_def)

lemma cleanup_chunks_paths:
  "\<forall>chunk\<in>set rs. string_to_number (wr_path chunk) = NaN \<Longrightarrow> cleanup_chunks clock k rs fm = fm"
  by (induction rs arbitrary: k) (simp_all add: clearCache_path)

text \<open>
  C10, what the code does. \<open>cleanupOperation\<close> on a known operation whose recorded
  paths are not numerals (a chunk path contains \<open>.part\<close>) leaves the cache as it
  was, chunk entries included, and discards the record of the operation; on an
  unknown operation it changes nothing.
\<close>

theorem cleanupOperation_keeps_chunk_entries:
  "(map_of (pendingChunks cm) operationId = Some operation
      \<and> (\<forall>chunk\<in>set (map snd (op_chunks operation)). string_to_number (wr_path chunk) = NaN) \<longrightarrow>
        fileManager (cleanupOperation clock operationId cm) = fileManager cm
        \<and> map_of (pendingChunks (cleanupOperation clock operationId cm)) operationId = None)
   \<and> (map_of (pendingChunks cm) operationId = None \<longrightarrow> cleanupOperation clock operationId cm = cm)"
proof -
  have a: "fileManager (cleanupOperation clock operationId cm) = fileManager cm
        \<and> map_of (pendingChunks (cleanupOperation clock operationId cm)) operationId = None"
    if "map_of (pendingChunks cm) operationId = Some operation"
      and "\<forall>chunk\<in>set (map snd (op_chunks operation)). string_to_number (wr_path chunk) = NaN"
    using that(1) cleanup_chunks_paths[OF that(2)]
    by (simp add: cleanupOperation_def delete_conv')
  have b: "cleanupOperation clock operationId cm = cm"
    if "map_of (pendingChunks cm) operationId = None"
    using that by (simp add: cleanupOperation_def)
  show ?thesis using a b by blast
qed

lemma part_paths_NaN:
  "string_to_number (js ''out.part0.txt'') = NaN"
  "string_to_number (js ''out.part1.txt'') = NaN"
  "string_to_number (js ''out.part2.txt'') = NaN"
  by code_simp+

theorem cleanupOperation_keeps_chunk_entries_witness:
  "string_to_number (js ''out.part0.txt'') = NaN
   \<and> string_to_number (js ''out.part1.txt'') = NaN
   \<and> string_to_number (js ''out.part2.txt'') = NaN
   \<and> fileManager (cleanupOperation tick (js ''chunk_1700000000000_k3j9x2m1q'') failed_write_state)
       = fileManager failed_write_state
   \<and> isCached (js ''out.part0.txt'')
        (fileManager (cleanupOperation tick (js ''chunk_1700000000000_k3j9x2m1q'') failed_write_state))
   \<and> isCached (js ''out.part1.txt'')
        (fileManager (cleanupOperation tick (js ''chunk_1700000000000_k3j9x2m1q'') failed_write_state))
   \<and> isCached (js ''out.part2.txt'')
        (fileManager (cleanupOperation tick (js ''chunk_1700000000000_k3j9x2m1q'') failed_write_state))
   \<and> pendingChunks (cleanupOperation tick (js ''chunk_1700000000000_k3j9x2m1q'') failed_write_state) = []
   \<and> cleanupOperation tick (js ''other'') failed_write_state = failed_write_state"
proof -
  let ?id = "js ''chunk_1700000000000_k3j9x2m1q''"
  let ?op = "\<lparr> op_total = 3, op_completed = 3,
             op_chunks =
               [(0, \<lparr> wr_path = js ''out.part0.txt'', wr_size = 40000, wr_cached = True,
                      wr_timestamp = 1700000000002 \<rparr>),
                (1, \<lparr> wr_path = js ''out.part1.txt'', wr_size = 40000, wr_cached = True,
                      wr_timestamp = 1700000000004 \<rparr>),
                (2, \<lparr> wr_path = js ''out.part2.txt'', wr_size = 40000, wr_cached = True,
                      wr_timestamp = 1700000000006 \<rparr>)] \<rparr>"
  note t = cleanupOperation_keeps_chunk_entries
  have p: "map_of (pendingChunks failed_write_state) ?id = Some ?op"
    by (simp add: failed_write_state_def)
  have q: "\<forall>chunk\<in>set (map snd (op_chunks ?op)). string_to_number (wr_path chunk) = NaN"
    by (simp add: part_paths_NaN)
  have f: "fileManager (cleanupOperation tick ?id failed_write_state) = fileManager failed_write_state"
    using t[of failed_write_state ?id ?op tick] p q by blast
  have c: "isCached (js ''out.part0.txt'') (fileManager failed_write_state)"
      "isCached (js ''out.part1.txt'') (fileManager failed_write_state)"
      "isCached (js ''out.part2.txt'') (fileManager failed_write_state)"
    by (simp_all add: isCached_def failed_write_state_def js_eq_iff)
  have d: "pendingChunks (cleanupOperation tick ?id failed_write_state) = []"
    by (simp add: cleanupOperation_def failed_write_state_def)
  have u: "map_of (pendingChunks failed_write_state) (js ''other'') = None"
    by (simp add: failed_write_state_def js_eq_iff)
  have o: "cleanupOperation tick (js ''other'') failed_write_state = failed_write_state"
    using t[of failed_write_state "js ''other''" _ tick] u by blast
  show ?thesis using part_paths_NaN f c d o by simp
qed

end
